theory Spec2Isabelle
  imports Complex_Main
begin

section \<open>Data model (control-plane/types.ts, ledger/types.ts)\<close>

text \<open>
  Strings are lists of code units; the model keeps the code units below 256, so
  \<open>length\<close> is the source's \<open>.length\<close>.  Confidence and score are rationals, each
  standing for the double nearest to it: the program only copies and compares them
  (and adds 1 and 0.5 to a score), and on the constants it uses (0, 0.5, 0.75, 0.85,
  0.9, 0.95) the order of the doubles is the order of the rationals.  Counts, offsets
  and lengths are integers or naturals.
\<close>

datatype InvocationMode = Command | Intent
datatype OutputFormat = Json | Md
datatype FetchSource = Sec | Edgar_archive | Url
datatype ContentType = Html | Pdf | Text

record AnalyzeOptions =
  ticker :: string
  year :: int
  mode :: InvocationMode
  format :: OutputFormat
  out :: string
  source :: FetchSource
  url :: "string option"
  require :: "string list"
  strict :: bool
  cache :: bool
  invocationId :: string

datatype StepName = Fetch | Extract | Locate_sections | Validate | Generate | Emit_ledger

datatype StepStatus = Pending | Running | Passed | Failed | Skipped

text \<open>The field \<open>name\<close> of the source occurs in four interfaces; the records
  spell it \<open>rname\<close> (StepResult), \<open>name\<close> (WorkflowStep), \<open>sname\<close> (SectionMatch)
  and \<open>aname\<close> (SectionAnalysis).\<close>

record StepResult =
  rname :: StepName
  status :: StepStatus
  durationMs :: nat
  error :: "string option"

record SectionMatch =
  sname :: string
  found :: bool
  confidence :: rat
  startOffset :: int
  endOffset :: int
  lengthChars :: int
  content :: string

record SectionAnalysis =
  aname :: string
  afound :: bool
  aconfidence :: rat
  summary :: "string list"
  evidence :: "string list"

record WorkflowContext =
  options :: AnalyzeOptions
  rawContent :: string
  contentType :: ContentType
  extractedText :: string
  sections :: "SectionMatch list"
  analyses :: "SectionAnalysis list"
  stepResults :: "StepResult list"
  overallSummary :: "string list"

text \<open>A step's unit of work mutates the context and may throw: the model returns the
  context as the step left it, and the message of the error if one was thrown.\<close>

record WorkflowStep =
  name :: StepName
  required :: bool
  execute :: "WorkflowContext \<Rightarrow> WorkflowContext \<times> string option"

record WorkflowPlan =
  steps :: "WorkflowStep list"
  skippedSteps :: "StepName list"
  confidenceThreshold :: rat

record SectionValidationEntry =
  vfound :: bool
  vconfidence :: rat
  vlengthChars :: int

record AuditLedger =
  l_invocationId :: string
  timestamp :: string
  l_mode :: InvocationMode
  deterministic :: bool
  workflow :: string
  requiredSteps :: "StepName list"
  executedSteps :: "StepName list"
  l_skippedSteps :: "StepName list"
  durationsMs :: "StepName \<rightharpoonup> nat"
  sectionValidation :: "string \<rightharpoonup> SectionValidationEntry"
  passed :: bool
  failureReason :: "string option"

section \<open>Strings and regular expressions of the runtime\<close>

text \<open>\<open>\s\<close> of a regular expression and the characters \<open>trim\<close> strips: tab, line feed,
  vertical tab, form feed, carriage return, space and no-break space (the members
  below 256).\<close>

definition isSpace :: "char \<Rightarrow> bool" where
  "isSpace c = (of_char c \<in> {9::nat, 10, 11, 12, 13, 32, 160})"

definition isDigit :: "char \<Rightarrow> bool" where
  "isDigit c = (48 \<le> (of_char c :: nat) \<and> (of_char c :: nat) \<le> 57)"

definition isUpperAZ :: "char \<Rightarrow> bool" where
  "isUpperAZ c = (65 \<le> (of_char c :: nat) \<and> (of_char c :: nat) \<le> 90)"

definition isLowerAZ :: "char \<Rightarrow> bool" where
  "isLowerAZ c = (97 \<le> (of_char c :: nat) \<and> (of_char c :: nat) \<le> 122)"

definition isWordChar :: "char \<Rightarrow> bool" where
  "isWordChar c = (isUpperAZ c \<or> isLowerAZ c \<or> isDigit c \<or> c = CHR ''_'')"

text \<open>\<open>String.prototype.toLowerCase\<close> on code units below 256: A-Z and the
  Latin-1 capitals (192..222 except the multiplication sign 215) move up by 32.\<close>

definition lowerChar :: "char \<Rightarrow> char" where
  "lowerChar c =
     (let n = (of_char c :: nat)
      in if (65 \<le> n \<and> n \<le> 90) \<or> (192 \<le> n \<and> n \<le> 222 \<and> n \<noteq> 215)
         then char_of (n + 32) else c)"

definition toLowerCase :: "string \<Rightarrow> string" where
  "toLowerCase s = map lowerChar s"

text \<open>Case folding of the \<open>i\<close> flag (without the \<open>u\<close> flag): only the ASCII letters
  fold onto ASCII letters, so two characters are the same under the flag when they
  are equal or one is the capital of the other.\<close>

definition sameFolded :: "char \<Rightarrow> char \<Rightarrow> bool" where
  "sameFolded x c =
     (x = c
      \<or> (isUpperAZ x \<and> (of_char x :: nat) + 32 = of_char c)
      \<or> (isUpperAZ c \<and> (of_char c :: nat) + 32 = of_char x))"

definition trim :: "string \<Rightarrow> string" where
  "trim s = rev (dropWhile isSpace (rev (dropWhile isSpace s)))"

text \<open>\<open>s.replace(/\s+/g, ' ')\<close>: every maximal run of whitespace becomes one space.
  The flag says whether the previous character belonged to a run.\<close>

fun collapseFrom :: "bool \<Rightarrow> string \<Rightarrow> string" where
  "collapseFrom inRun [] = []"
| "collapseFrom inRun (c # cs) =
     (if isSpace c then (if inRun then collapseFrom True cs else CHR 0x20 # collapseFrom True cs)
      else c # collapseFrom False cs)"

definition collapseWs :: "string \<Rightarrow> string" where
  "collapseWs s = collapseFrom False s"

text \<open>\<open>s.split('\n')\<close>: never empty; an empty string gives one empty line.\<close>

fun splitLines :: "string \<Rightarrow> string list" where
  "splitLines [] = [[]]"
| "splitLines (c # cs) =
     (if c = CHR 0x0A then [] # splitLines cs
      else (case splitLines cs of l # ls \<Rightarrow> (c # l) # ls | [] \<Rightarrow> [[c]]))"

fun join :: "string \<Rightarrow> string list \<Rightarrow> string" where
  "join sep [] = []"
| "join sep [x] = x"
| "join sep (x # y # ys) = x @ sep @ join sep (y # ys)"

text \<open>\<open>haystack.includes(needle)\<close>.\<close>

fun includes_str :: "string \<Rightarrow> string \<Rightarrow> bool" where
  "includes_str [] needle = (needle = [])"
| "includes_str (c # cs) needle =
     (take (length needle) (c # cs) = needle \<or> includes_str cs needle)"

text \<open>Decimal rendering of a number that holds an integer.\<close>

fun decimal :: "nat \<Rightarrow> string" where
  "decimal n =
     (if n < 10 then [''0123456789'' ! n]
      else decimal (n div 10) @ [''0123456789'' ! (n mod 10)])"

definition showInt :: "int \<Rightarrow> string" where
  "showInt i = (if i < 0 then CHR ''-'' # decimal (nat (- i)) else decimal (nat i))"

subsection \<open>The fragment of regular expressions the program uses\<close>

text \<open>A character class is a list of members: a literal (compared under ASCII case
  folding: every pattern with a letter carries the \<open>i\<close> flag), \<open>\s\<close>, \<open>\d\<close>, or the
  range \<open>[a-z]\<close> under the \<open>i\<close> flag.  The em and en dash of the source's separator
  class lie beyond the modelled code units and are left out.\<close>

datatype cls = Ch char | Sp | Dg | Az

fun clsHas :: "cls \<Rightarrow> char \<Rightarrow> bool" where
  "clsHas (Ch c) x = sameFolded x c"
| "clsHas Sp x = isSpace x"
| "clsHas Dg x = isDigit x"
| "clsHas Az x = (isLowerAZ x \<or> isUpperAZ x)"

definition inClass :: "cls list \<Rightarrow> char \<Rightarrow> bool" where
  "inClass cs x = list_ex (\<lambda>c. clsHas c x) cs"

datatype atom = One "cls list" | Opt "cls list" | Star "cls list" | Plus "cls list"

datatype item =
    A atom
  | Bol
  | WordB
  | Behind "cls list"
  | NotAhead "atom list"
  | OptGroup "atom list"

type_synonym regex = "item list"

fun weight :: "item \<Rightarrow> nat" where
  "weight (NotAhead as) = Suc (Suc (length as))"
| "weight (OptGroup as) = Suc (Suc (length as))"
| "weight _ = 1"

definition wordSide :: "char option \<Rightarrow> bool" where
  "wordSide c = (case c of None \<Rightarrow> False | Some x \<Rightarrow> isWordChar x)"

definition headOpt :: "string \<Rightarrow> char option" where
  "headOpt s = (case s of [] \<Rightarrow> None | x # _ \<Rightarrow> Some x)"

text \<open>\<open>matchHere r prev s\<close>: the pattern \<open>r\<close> matches a prefix of \<open>s\<close>, where \<open>prev\<close>
  is the character before \<open>s\<close> in the input.  A backtracking matcher finds a match at
  a position exactly when one exists, which is what the disjunctions say.\<close>

function matchHere :: "regex \<Rightarrow> char option \<Rightarrow> string \<Rightarrow> bool" where
  "matchHere [] prev s = True"
| "matchHere (A (One c) # r) prev s =
     (case s of [] \<Rightarrow> False | x # xs \<Rightarrow> inClass c x \<and> matchHere r (Some x) xs)"
| "matchHere (A (Opt c) # r) prev s =
     (case s of [] \<Rightarrow> matchHere r prev []
      | x # xs \<Rightarrow> (inClass c x \<and> matchHere r (Some x) xs) \<or> matchHere r prev (x # xs))"
| "matchHere (A (Star c) # r) prev s =
     (case s of [] \<Rightarrow> matchHere r prev []
      | x # xs \<Rightarrow> (inClass c x \<and> matchHere (A (Star c) # r) (Some x) xs)
                    \<or> matchHere r prev (x # xs))"
| "matchHere (A (Plus c) # r) prev s =
     (case s of [] \<Rightarrow> False
      | x # xs \<Rightarrow> inClass c x \<and> matchHere (A (Star c) # r) (Some x) xs)"
| "matchHere (Bol # r) prev s = (prev = None \<and> matchHere r prev s)"
| "matchHere (WordB # r) prev s =
     (wordSide prev \<noteq> wordSide (headOpt s) \<and> matchHere r prev s)"
| "matchHere (Behind c # r) prev s =
     ((case prev of None \<Rightarrow> False | Some p \<Rightarrow> inClass c p) \<and> matchHere r prev s)"
| "matchHere (NotAhead as # r) prev s =
     (\<not> matchHere (map A as) prev s \<and> matchHere r prev s)"
| "matchHere (OptGroup as # r) prev s =
     (matchHere (map A as @ r) prev s \<or> matchHere r prev s)"
  by pat_completeness auto
termination
  by (relation "measures [\<lambda>(r, prev, s). length s, \<lambda>(r, prev, s). sum_list (map weight r)]")
     (auto simp: comp_def map_replicate_const sum_list_replicate)

text \<open>\<open>re.exec(s)\<close> without the \<open>g\<close> flag: the least start index with a match.\<close>

fun searchFrom :: "regex \<Rightarrow> char option \<Rightarrow> string \<Rightarrow> nat \<Rightarrow> nat option" where
  "searchFrom r prev [] i = (if matchHere r prev [] then Some i else None)"
| "searchFrom r prev (x # xs) i =
     (if matchHere r prev (x # xs) then Some i else searchFrom r (Some x) xs (Suc i))"

definition exec :: "regex \<Rightarrow> string \<Rightarrow> nat option" where
  "exec r s = searchFrom r None s 0"

definition test :: "regex \<Rightarrow> string \<Rightarrow> bool" where
  "test r s = (exec r s \<noteq> None)"

definition lit :: "string \<Rightarrow> regex" where
  "lit s = map (\<lambda>c. A (One [Ch c])) s"

section \<open>Section locator (analysis/locator.ts)\<close>

record SectionPattern =
  key :: string
  requireKeys :: "string list"
  headingPatterns :: "regex list"

text \<open>The separator class \<open>[\.\s\-]\<close> (with the two dashes, see above).\<close>

definition sepClass :: "cls list" where
  "sepClass = [Ch (CHR ''.''), Sp, Ch (CHR ''-'')]"

definition itemPrefix :: "string \<Rightarrow> regex" where
  "itemPrefix n = [Bol] @ lit ''item'' @ [A (Plus [Sp])] @ lit n"

definition SECTION_PATTERNS :: "SectionPattern list" where
  "SECTION_PATTERNS =
     [\<lparr>key = ''risk_factors'',
       requireKeys = [''risk-factors'', ''risk_factors''],
       headingPatterns =
         [itemPrefix ''1a'' @ [A (Plus sepClass)] @ lit ''risk'' @ [A (Plus [Sp])] @ lit ''factors'',
          itemPrefix ''1a'' @ [WordB]]\<rparr>,
      \<lparr>key = ''mdna'',
       requireKeys = [''mdna'', ''md&a'', ''mda''],
       headingPatterns =
         [itemPrefix ''7'' @ [A (Plus sepClass)] @ lit ''management''
            @ [A (Opt [Ch (CHR 0x27)]), A (Opt [Ch (CHR ''s'')]), A (Plus [Sp])]
            @ lit ''discussion'',
          itemPrefix ''7'' @ [WordB, NotAhead [Star [Sp], One [Ch (CHR ''a'')]]]]\<rparr>,
      \<lparr>key = ''financials'',
       requireKeys = [''financials'', ''financial-statements'', ''financial_statements''],
       headingPatterns =
         [itemPrefix ''8'' @ [A (Plus sepClass)] @ lit ''financial'' @ [A (Plus [Sp])]
            @ lit ''statements'',
          itemPrefix ''8'' @ [WordB]]\<rparr>]"

definition NEXT_ITEM_HEADING :: regex where
  "NEXT_ITEM_HEADING =
     [Bol] @ lit ''item'' @ [A (Plus [Sp]), A (Plus [Dg]), A (Opt [Az]), A (One sepClass)]"

definition makeNotFound :: "string \<Rightarrow> SectionMatch" where
  "makeNotFound nm =
     \<lparr>sname = nm, found = False, confidence = 0, startOffset = -1, endOffset = -1,
      lengthChars = 0, content = []\<rparr>"

text \<open>The rendered text of a block as both loops normalise it.\<close>

definition blockText :: "string \<Rightarrow> string" where
  "blockText d = trim (collapseWs d)"

text \<open>Inner loop of the heading search: the index of the first pattern that matches.\<close>

fun firstPattern :: "regex list \<Rightarrow> string \<Rightarrow> nat \<Rightarrow> nat option" where
  "firstPattern [] txt pidx = None"
| "firstPattern (r # rs) txt pidx =
     (if test r txt then Some pidx else firstPattern rs txt (Suc pidx))"

text \<open>Outer loop: the first block, from index \<open>i\<close> on, that is a heading candidate
  (3 to 150 characters) and matches; with the confidence of its tier.\<close>

fun findHeading :: "regex list \<Rightarrow> string list \<Rightarrow> nat \<Rightarrow> (nat \<times> rat) option" where
  "findHeading ps [] i = None"
| "findHeading ps (d # ds) i =
     (let txt = blockText d
      in if length txt > 150 \<or> length txt < 3 then findHeading ps ds (Suc i)
         else (case firstPattern ps txt 0 of
                 Some pidx \<Rightarrow> Some (i, if pidx = 0 then 95 / 100 else 90 / 100)
               | None \<Rightarrow> findHeading ps ds (Suc i)))"

text \<open>Second loop, over the blocks from \<open>headingIdx + 1\<close> on (\<open>i\<close> is the index of the
  first one): the content blocks and \<open>endIdx\<close>.\<close>

fun collectBlocks :: "string list \<Rightarrow> nat \<Rightarrow> string list \<times> nat" where
  "collectBlocks [] i = ([], i)"
| "collectBlocks (d # ds) i =
     (let txt = blockText d
      in if length txt < 100 \<and> test NEXT_ITEM_HEADING txt then ([], i)
         else (case collectBlocks ds (Suc i) of
                 (blocks, endIdx) \<Rightarrow> (if length txt > 2 then txt # blocks else blocks, endIdx)))"

text \<open>\<open>bodyDivs\<close> is given by the text of each \<open>body > div\<close> element, which is all the
  function reads of them.\<close>

definition findSectionByDomSiblings :: "string list \<Rightarrow> SectionPattern \<Rightarrow> SectionMatch" where
  "findSectionByDomSiblings bodyDivs pattern =
     (case findHeading (headingPatterns pattern) bodyDivs 0 of
        None \<Rightarrow> makeNotFound (key pattern)
      | Some (headingIdx, conf) \<Rightarrow>
          (case collectBlocks (drop (Suc headingIdx) bodyDivs) (Suc headingIdx) of
             (contentBlocks, endIdx) \<Rightarrow>
               (let content' = join [CHR 0x0A] contentBlocks
                in \<lparr>sname = key pattern, found = True, confidence = conf,
                    startOffset = int headingIdx, endOffset = int endIdx,
                    lengthChars = int (length content'), content = content'\<rparr>)))"

text \<open>The document parser is a library; \<open>parseBodyDivs html\<close> stands for the texts of
  \<open>cheerio.load(html)('body > div')\<close>.\<close>

definition locateInHtml :: "(string \<Rightarrow> string list) \<Rightarrow> string \<Rightarrow> SectionMatch list" where
  "locateInHtml parseBodyDivs html =
     map (findSectionByDomSiblings (parseBodyDivs html)) SECTION_PATTERNS"

text \<open>The loop of \<open>extractTextSection\<close> over the lines from index \<open>i\<close> on: \<open>endIdx\<close>,
  or \<open>-1\<close>.\<close>

fun scanEnd :: "string list \<Rightarrow> nat \<Rightarrow> int" where
  "scanEnd [] i = -1"
| "scanEnd (l # ls) i =
     (let trimmed = trim l
      in if length trimmed < 3 then scanEnd ls (Suc i)
         else if test NEXT_ITEM_HEADING trimmed \<and> length trimmed < 150 then int i
         else scanEnd ls (Suc i))"


definition extractTextSection :: "string \<Rightarrow> nat \<Rightarrow> string" where
  "extractTextSection txt startOffset' =
     (let afterHeading = drop startOffset' txt;
          lines = splitLines afterHeading;
          endIdx = scanEnd (drop 3 lines) 3;
          sectionLines = (if endIdx > 0 then take (nat endIdx) lines else take 800 lines);
          content' = trim (join [CHR 0x0A] sectionLines)
      in if length content' > 100000 then take 100000 content' else content')"

text \<open>\<open>r.source.replace(/^\^/, '')\<close>: the pattern without its leading anchor.\<close>

definition unanchored :: "regex \<Rightarrow> regex" where
  "unanchored r = (case r of Bol # rest \<Rightarrow> rest | _ \<Rightarrow> r)"

fun locateTextPattern :: "string \<Rightarrow> string \<Rightarrow> regex list \<Rightarrow> nat \<Rightarrow> SectionMatch" where
  "locateTextPattern nm txt [] pidx = makeNotFound nm"
| "locateTextPattern nm txt (r # rs) pidx =
     (case exec r txt of
        Some index \<Rightarrow>
          (let conf = (if pidx = 0 then 90 / 100 else 85 / 100);
               sectionContent = extractTextSection txt index
           in \<lparr>sname = nm, found = True, confidence = conf,
               startOffset = int index,
               endOffset = int index + int (length sectionContent),
               lengthChars = int (length sectionContent),
               content = sectionContent\<rparr>)
      | None \<Rightarrow> locateTextPattern nm txt rs (Suc pidx))"

definition locateInText :: "string \<Rightarrow> SectionMatch list" where
  "locateInText txt =
     map (\<lambda>pattern. locateTextPattern (key pattern) txt
                      (map unanchored (headingPatterns pattern)) 0)
         SECTION_PATTERNS"

definition locateSections ::
  "(string \<Rightarrow> string list) \<Rightarrow> string \<Rightarrow> string \<Rightarrow> ContentType \<Rightarrow> SectionMatch list" where
  "locateSections parseBodyDivs rawHtml extractedText' contentType' =
     (if contentType' = Html then locateInHtml parseBodyDivs rawHtml
      else locateInText extractedText')"

definition matchesSectionKey :: "string \<Rightarrow> string \<Rightarrow> bool" where
  "matchesSectionKey sectionName requireKey =
     (case find (\<lambda>p. key p = sectionName) SECTION_PATTERNS of
        None \<Rightarrow> False
      | Some pattern \<Rightarrow> toLowerCase requireKey \<in> set (requireKeys pattern))"

section \<open>Section validator (analysis/validator.ts)\<close>

definition MIN_SECTION_LENGTH :: int where
  "MIN_SECTION_LENGTH = 500"

text \<open>The opening of every failure line: the word Section and the quoted key.\<close>

definition sectionQ :: "string \<Rightarrow> string" where
  "sectionQ reqKey = ''Section '' @ [CHR 0x22] @ reqKey @ [CHR 0x22]"

text \<open>The three failure lines, as the template strings build them.  The digits of
  \<open>x.toFixed(2)\<close> come from the runtime, which rounds the binary value of the double;
  the rendering is the parameter \<open>fixed2\<close> of the validator.\<close>

definition notFoundMessage :: "string \<Rightarrow> string" where
  "notFoundMessage reqKey = sectionQ reqKey @ '' not found in filing''"

definition confidenceMessage ::
  "(rat \<Rightarrow> string) \<Rightarrow> string \<Rightarrow> rat \<Rightarrow> rat \<Rightarrow> string" where
  "confidenceMessage fixed2 reqKey conf confidenceThreshold' =
     sectionQ reqKey @ '' confidence '' @ fixed2 conf
     @ '' below threshold '' @ fixed2 confidenceThreshold'"

definition tooShortMessage :: "string \<Rightarrow> int \<Rightarrow> string" where
  "tooShortMessage reqKey len =
     sectionQ reqKey @ '' too short ('' @ showInt len
     @ '' chars, minimum '' @ showInt MIN_SECTION_LENGTH @ '')''"

text \<open>One iteration of the loop over the required keys: the failures it pushes.\<close>

definition keyFailures ::
  "(rat \<Rightarrow> string) \<Rightarrow> SectionMatch list \<Rightarrow> rat \<Rightarrow> string \<Rightarrow> string list" where
  "keyFailures fixed2 sections' confidenceThreshold' reqKey =
     (case find (\<lambda>s. matchesSectionKey (sname s) reqKey) sections' of
        None \<Rightarrow> [notFoundMessage reqKey]
      | Some section \<Rightarrow>
          if \<not> found section then [notFoundMessage reqKey]
          else
            (if confidence section < confidenceThreshold'
             then [confidenceMessage fixed2 reqKey (confidence section) confidenceThreshold']
             else [])
            @ (if lengthChars section < MIN_SECTION_LENGTH
               then [tooShortMessage reqKey (lengthChars section)]
               else []))"

fun collectFailures ::
  "(rat \<Rightarrow> string) \<Rightarrow> SectionMatch list \<Rightarrow> rat \<Rightarrow> string list \<Rightarrow> string list
     \<Rightarrow> string list" where
  "collectFailures fixed2 sections' thr [] failures = failures"
| "collectFailures fixed2 sections' thr (reqKey # rest) failures =
     collectFailures fixed2 sections' thr rest
       (failures @ keyFailures fixed2 sections' thr reqKey)"

definition compositeMessage :: "string list \<Rightarrow> string" where
  "compositeMessage failures =
     ''Validation failed:'' @ [CHR 0x0A] @ ''  - '' @ join ([CHR 0x0A] @ ''  - '') failures"

text \<open>\<open>Inl message\<close> is the thrown error; \<open>Inr w\<close> is a normal return, \<open>w\<close> the line
  written by \<open>console.warn\<close>, if any.\<close>

definition validateSections ::
  "(rat \<Rightarrow> string) \<Rightarrow> SectionMatch list \<Rightarrow> string list \<Rightarrow> rat \<Rightarrow> bool
     \<Rightarrow> string + string option" where
  "validateSections fixed2 sections' requiredKeys confidenceThreshold' hardFail =
     (let failures = collectFailures fixed2 sections' confidenceThreshold' requiredKeys []
      in if length failures > 0
         then (let message = compositeMessage failures
               in if hardFail then Inl message else Inr (Some (''  [warn] '' @ message)))
         else Inr None)"

section \<open>Summarizer (analysis/summarizer.ts)\<close>

definition MAX_SUMMARY_POINTS :: nat where
  "MAX_SUMMARY_POINTS = 5"

definition MAX_EVIDENCE_SNIPPETS :: nat where
  "MAX_EVIDENCE_SNIPPETS = 3"

definition SENTENCE_END :: regex where
  "SENTENCE_END = [Behind [Ch (CHR ''.''), Ch (CHR ''!''), Ch (CHR ''?'')], A (Plus [Sp])]"

definition RISK_KEYWORDS :: "string list" where
  "RISK_KEYWORDS =
     [''risk'', ''adverse'', ''uncertainty'', ''litigation'', ''regulatory'',
      ''competition'', ''cybersecurity'', ''supply chain'', ''economic'',
      ''volatility'', ''liability'', ''compliance'', ''disruption'']"

definition FINANCIAL_KEYWORDS :: "string list" where
  "FINANCIAL_KEYWORDS =
     [''revenue'', ''income'', ''loss'', ''margin'', ''earnings'', ''cash flow'',
      ''assets'', ''liabilities'', ''debt'', ''capital'', ''dividend'',
      ''operating'', ''growth'', ''decline'', ''increase'', ''decrease'']"

definition MDNA_KEYWORDS :: "string list" where
  "MDNA_KEYWORDS =
     [''revenue'', ''growth'', ''margin'', ''decline'', ''increase'', ''segment'',
      ''operating'', ''strategy'', ''outlook'', ''trend'', ''driver'',
      ''year-over-year'', ''compared to'', ''primarily due'', ''result of'']"

record ScoredSentence =
  stext :: string
  score :: rat

definition currencyFigure :: regex where
  "currencyFigure = [A (One [Ch (CHR ''$'')]), A (Plus [Dg, Ch (CHR '',''), Ch (CHR ''.'')])]"

definition percentage :: regex where
  "percentage =
     [A (Plus [Dg]), OptGroup [One [Ch (CHR ''.'')], Plus [Dg]], A (One [Ch (CHR ''%'')])]"

definition scoreSentence :: "string list \<Rightarrow> string \<Rightarrow> ScoredSentence" where
  "scoreSentence keywords txt =
     (let lower = toLowerCase txt;
          hits = of_nat (length (filter (\<lambda>kw. includes_str lower (toLowerCase kw)) keywords))
      in \<lparr>stext = txt,
          score = (if test currencyFigure txt \<or> test percentage txt then hits + 1 / 2 else hits)\<rparr>)"

text \<open>\<open>Array.prototype.sort\<close> is stable, and so is \<open>sort_key\<close>; the comparator
  \<open>b.score - a.score\<close> orders by descending score.\<close>

definition scoreSentences :: "string list \<Rightarrow> string list \<Rightarrow> ScoredSentence list" where
  "scoreSentences sentences keywords =
     sort_key (\<lambda>s. - score s)
       (map (scoreSentence keywords)
          (filter (\<lambda>s. length s > 30 \<and> length s < 500) sentences))"

text \<open>\<open>text.split(SENTENCE_END)\<close>: a separator starts where the pattern matches and
  takes the whole run of whitespace.  \<open>inSep\<close> says that the previous character was
  part of a separator; \<open>cur\<close> is the piece under construction, reversed.\<close>

fun splitFrom :: "bool \<Rightarrow> char option \<Rightarrow> string \<Rightarrow> string \<Rightarrow> string list" where
  "splitFrom inSep prev cur [] = [rev cur]"
| "splitFrom inSep prev cur (c # cs) =
     (if inSep \<and> isSpace c then splitFrom True (Some c) cur cs
      else if matchHere SENTENCE_END prev (c # cs) then rev cur # splitFrom True (Some c) [] cs
      else splitFrom False (Some c) (c # cur) cs)"

definition splitSentences :: "string \<Rightarrow> string list" where
  "splitSentences txt =
     filter (\<lambda>s. length s > 0) (map trim (splitFrom False None [] txt))"

definition getKeywordsForSection :: "string \<Rightarrow> string list" where
  "getKeywordsForSection nm =
     (if nm = ''risk_factors'' then RISK_KEYWORDS
      else if nm = ''mdna'' then MDNA_KEYWORDS
      else if nm = ''financials'' then FINANCIAL_KEYWORDS
      else RISK_KEYWORDS @ FINANCIAL_KEYWORDS)"

text \<open>The lookup table of \<open>sectionKeyToName\<close>, with its own entries.  (For a key that
  lower-cases to the name of a property every object inherits, the source's lookup
  yields that property instead of a string; the function is modelled on the other
  keys.)\<close>

definition sectionKeyToName :: "string \<Rightarrow> string" where
  "sectionKeyToName k =
     (case map_of
             [(''risk-factors'', ''risk_factors''), (''risk_factors'', ''risk_factors''),
              (''mdna'', ''mdna''), (''md&a'', ''mdna''), (''mda'', ''mdna''),
              (''financials'', ''financials''), (''financial-statements'', ''financials''),
              (''financial_statements'', ''financials'')]
             (toLowerCase k) of
        Some n \<Rightarrow> n
      | None \<Rightarrow> k)"

text \<open>\<open>truncate\<close>, for \<open>maxLen\<close> of 3 or more (it is called with 200 only).\<close>

definition truncate_str :: "string \<Rightarrow> nat \<Rightarrow> string" where
  "truncate_str txt maxLen =
     (if length txt \<le> maxLen then txt else take (maxLen - 3) txt @ ''...'')"

text \<open>One iteration of the loop over the required keys: the analysis it pushes.\<close>

definition analyseKey :: "SectionMatch list \<Rightarrow> string \<Rightarrow> SectionAnalysis" where
  "analyseKey sections' reqKey =
     (let placeholder =
            \<lparr>aname = sectionKeyToName reqKey, afound = False, aconfidence = 0,
             summary = [], evidence = []\<rparr>
      in case find (\<lambda>s. matchesSectionKey (sname s) reqKey) sections' of
           None \<Rightarrow> placeholder
         | Some section \<Rightarrow>
             if \<not> found section then placeholder
             else
               (let keywords = getKeywordsForSection (sname section);
                    sentences = splitSentences (content section);
                    scored = scoreSentences sentences keywords
                in \<lparr>aname = sname section, afound = True,
                    aconfidence = confidence section,
                    summary = map stext (take MAX_SUMMARY_POINTS scored),
                    evidence =
                      map (\<lambda>s. truncate_str (stext s) 200) (take MAX_EVIDENCE_SNIPPETS scored)\<rparr>))"

fun analyseKeys ::
  "SectionMatch list \<Rightarrow> string list \<Rightarrow> SectionAnalysis list \<Rightarrow> SectionAnalysis list" where
  "analyseKeys sections' [] analyses' = analyses'"
| "analyseKeys sections' (reqKey # rest) analyses' =
     analyseKeys sections' rest (analyses' @ [analyseKey sections' reqKey])"

definition buildOverallSummary :: "SectionAnalysis list \<Rightarrow> string list" where
  "buildOverallSummary analyses' =
     (let found' = filter afound analyses';
          missing = filter (\<lambda>a. \<not> afound a) analyses'
      in (if length found' > 0
          then [''Analyzed '' @ decimal (length found') @ '' section(s): ''
                @ join '', '' (map aname found') @ ''.'']
          else [])
         @ (if length missing > 0
            then [''Missing section(s): '' @ join '', '' (map aname missing) @ ''.'']
            else [])
         @ concat (map (\<lambda>a. if length (summary a) > 0
                              then [aname a @ '': '' @ hd (summary a)] else [])
                       found'))"

record AnalysisResult =
  r_sections :: "SectionAnalysis list"
  r_overallSummary :: "string list"

definition generateAnalysis :: "SectionMatch list \<Rightarrow> string list \<Rightarrow> AnalysisResult" where
  "generateAnalysis sections' requiredKeys =
     (let analyses' = analyseKeys sections' requiredKeys []
      in \<lparr>r_sections = analyses', r_overallSummary = buildOverallSummary analyses'\<rparr>)"

section \<open>Workflow planner (control-plane/workflow.ts)\<close>

text \<open>The collaborators outside the core: the fetcher and the text extractor (each
  either throws a message or returns), the document parser, the step timer (the
  reading for the step that runs when \<open>k\<close> results are recorded), the wall clock, and
  the runtime's \<open>toFixed(2)\<close>.\<close>

record FetchResult =
  fcontent :: string
  fcontentType :: ContentType

record Env =
  fetchFiling :: "AnalyzeOptions \<Rightarrow> string + FetchResult"
  extractText :: "string \<Rightarrow> ContentType \<Rightarrow> string + string"
  parseBodyDivs :: "string \<Rightarrow> string list"
  elapsed :: "nat \<Rightarrow> nat"
  nowISO :: string
  toFixed2 :: "rat \<Rightarrow> string"

definition COMMAND_CONFIDENCE_THRESHOLD :: rat where
  "COMMAND_CONFIDENCE_THRESHOLD = 75 / 100"

definition INTENT_CONFIDENCE_THRESHOLD :: rat where
  "INTENT_CONFIDENCE_THRESHOLD = 5 / 10"

definition fetchStep :: "Env \<Rightarrow> WorkflowContext \<Rightarrow> WorkflowContext \<times> string option" where
  "fetchStep env ctx =
     (case fetchFiling env (options ctx) of
        Inl e \<Rightarrow> (ctx, Some e)
      | Inr result \<Rightarrow>
          (ctx\<lparr>rawContent := fcontent result, contentType := fcontentType result\<rparr>, None))"

definition extractStep :: "Env \<Rightarrow> WorkflowContext \<Rightarrow> WorkflowContext \<times> string option" where
  "extractStep env ctx =
     (case extractText env (rawContent ctx) (contentType ctx) of
        Inl e \<Rightarrow> (ctx, Some e)
      | Inr t \<Rightarrow>
          (let ctx' = ctx\<lparr>extractedText := t\<rparr>
           in if length t < 1000
              then (ctx', Some (''Extracted text too short ('' @ decimal (length t)
                                @ '' chars). Filing may be malformed.''))
              else (ctx', None)))"

definition locateStep :: "Env \<Rightarrow> WorkflowContext \<Rightarrow> WorkflowContext \<times> string option" where
  "locateStep env ctx =
     (ctx\<lparr>sections := locateSections (parseBodyDivs env) (rawContent ctx)
                         (extractedText ctx) (contentType ctx)\<rparr>, None)"

definition validateStep ::
  "Env \<Rightarrow> rat \<Rightarrow> bool \<Rightarrow> WorkflowContext \<Rightarrow> WorkflowContext \<times> string option" where
  "validateStep env threshold isCommand ctx =
     (case validateSections (toFixed2 env) (sections ctx) (require (options ctx)) threshold
             isCommand of
        Inl message \<Rightarrow> (ctx, Some message)
      | Inr w \<Rightarrow> (ctx, None))"

definition generateStep :: "WorkflowContext \<Rightarrow> WorkflowContext \<times> string option" where
  "generateStep ctx =
     (let result = generateAnalysis (sections ctx) (require (options ctx))
      in (ctx\<lparr>analyses := r_sections result, overallSummary := r_overallSummary result\<rparr>,
          None))"

definition buildWorkflow :: "Env \<Rightarrow> AnalyzeOptions \<Rightarrow> WorkflowPlan" where
  "buildWorkflow env options' =
     (let isCommand = (mode options' = Command);
          threshold = (if isCommand then COMMAND_CONFIDENCE_THRESHOLD
                       else INTENT_CONFIDENCE_THRESHOLD)
      in \<lparr>steps =
            [\<lparr>name = Fetch, required = True, execute = fetchStep env\<rparr>,
             \<lparr>name = Extract, required = True, execute = extractStep env\<rparr>,
             \<lparr>name = Locate_sections, required = True, execute = locateStep env\<rparr>,
             \<lparr>name = Validate, required = isCommand,
              execute = validateStep env threshold isCommand\<rparr>,
             \<lparr>name = Generate, required = isCommand, execute = generateStep\<rparr>,
             \<lparr>name = Emit_ledger, required = True, execute = (\<lambda>ctx. (ctx, None))\<rparr>],
          skippedSteps = [],
          confidenceThreshold = threshold\<rparr>)"

section \<open>Intent routers (intent-router/router.ts, llm-router.ts): the skip lists\<close>

text \<open>Both routers take the plan of \<open>buildWorkflow\<close> and overwrite its \<open>skippedSteps\<close>.
  The heuristic router draws from \<open>Math.random()\<close>; the draws are the arguments
  \<open>r1\<close>, \<open>r2\<close>, \<open>r3\<close> (the second is only looked at for a vague intent).\<close>

definition computeProbabilisticSkips :: "bool \<Rightarrow> rat \<Rightarrow> rat \<Rightarrow> rat \<Rightarrow> StepName list" where
  "computeProbabilisticSkips isVague r1 r2 r3 =
     (if r1 < 5 / 10 then [Validate] else [])
     @ (if isVague \<and> r2 < 4 / 10 then [Locate_sections] else [])
     @ (if r3 < 2 / 10 then [Generate] else [])"

definition ALL_STEPS :: "StepName list" where
  "ALL_STEPS = [Fetch, Extract, Locate_sections, Validate, Generate, Emit_ledger]"

fun stepString :: "StepName \<Rightarrow> string" where
  "stepString Fetch = ''fetch''"
| "stepString Extract = ''extract''"
| "stepString Locate_sections = ''locate_sections''"
| "stepString Validate = ''validate''"
| "stepString Generate = ''generate''"
| "stepString Emit_ledger = ''emit_ledger''"

text \<open>The model-driven router skips the steps its answer (\<open>parsed.steps\<close>) leaves out.\<close>

definition llmSkippedSteps :: "string list \<Rightarrow> StepName list" where
  "llmSkippedSteps llmSteps = filter (\<lambda>s. stepString s \<notin> set llmSteps) ALL_STEPS"

definition routedPlan :: "Env \<Rightarrow> AnalyzeOptions \<Rightarrow> StepName list \<Rightarrow> WorkflowPlan" where
  "routedPlan env stubOptions skipped = (buildWorkflow env stubOptions)\<lparr>skippedSteps := skipped\<rparr>"

section \<open>Ledger builder (ledger/ledger.ts)\<close>

definition ALL_REQUIRED_STEPS :: "StepName list" where
  "ALL_REQUIRED_STEPS = [Fetch, Extract, Locate_sections, Validate, Generate, Emit_ledger]"

text \<open>The first loop of \<open>buildLedger\<close>: one pass over \<open>ctx.stepResults\<close>, threading
  \<open>durationsMs\<close>, \<open>executedSteps\<close> and \<open>skippedSteps\<close>.\<close>

fun classifyResults ::
  "StepResult list \<Rightarrow> (StepName \<rightharpoonup> nat) \<times> StepName list \<times> StepName list
     \<Rightarrow> (StepName \<rightharpoonup> nat) \<times> StepName list \<times> StepName list" where
  "classifyResults [] acc = acc"
| "classifyResults (result # rest) (durs, executed, skipped) =
     classifyResults rest
       (durs(rname result \<mapsto> durationMs result),
        if status result = Passed \<or> status result = Failed
          then executed @ [rname result] else executed,
        if status result = Passed \<or> status result = Failed then skipped
        else if status result = Skipped \<and> rname result \<notin> set skipped
          then skipped @ [rname result] else skipped)"

text \<open>The second loop: the snapshot of every section, later entries overwriting.\<close>

fun snapshotSections ::
  "SectionMatch list \<Rightarrow> (string \<rightharpoonup> SectionValidationEntry)
     \<Rightarrow> (string \<rightharpoonup> SectionValidationEntry)" where
  "snapshotSections [] m = m"
| "snapshotSections (section # rest) m =
     snapshotSections rest
       (m(sname section \<mapsto>
            \<lparr>vfound = found section, vconfidence = confidence section,
             vlengthChars = lengthChars section\<rparr>))"

text \<open>\<open>buildLedger\<close> reads the wall clock (\<open>new Date().toISOString()\<close>); the reading
  is the explicit first argument \<open>now\<close>.\<close>

definition buildLedger ::
  "string \<Rightarrow> WorkflowContext \<Rightarrow> WorkflowPlan \<Rightarrow> bool \<Rightarrow> string option \<Rightarrow> AuditLedger" where
  "buildLedger now ctx plan passed' failureReason' =
     (case classifyResults (stepResults ctx) (Map.empty, [], skippedSteps plan) of
        (durs, executed, skipped) \<Rightarrow>
          \<lparr>l_invocationId = invocationId (options ctx),
           timestamp = now,
           l_mode = mode (options ctx),
           deterministic = (mode (options ctx) = Command),
           workflow = ''analyze_10k_v1'',
           requiredSteps = ALL_REQUIRED_STEPS,
           executedSteps = executed,
           l_skippedSteps = skipped,
           durationsMs = durs,
           sectionValidation = snapshotSections (sections ctx) Map.empty,
           passed = passed',
           failureReason = failureReason'\<rparr>)"

section \<open>Orchestrator (control-plane/orchestrator.ts)\<close>

record AnalysisOutput =
  o_invocationId :: string
  o_mode :: InvocationMode
  o_workflow :: string
  o_ticker :: string
  o_year :: int
  o_sections :: "SectionAnalysis list"
  o_overallSummary :: "string list"

definition buildAnalysisOutput :: "WorkflowContext \<Rightarrow> AnalysisOutput" where
  "buildAnalysisOutput ctx =
     \<lparr>o_invocationId = invocationId (options ctx),
      o_mode = mode (options ctx),
      o_workflow = ''analyze_10k_v1'',
      o_ticker = ticker (options ctx),
      o_year = year (options ctx),
      o_sections = analyses ctx,
      o_overallSummary = overallSummary ctx\<rparr>"

text \<open>What a run writes: files are recorded by what they hold (the ledger; the
  analysis with the format it is rendered in), in the order written.  Paths,
  serialisation and failures of the file system are outside the model.\<close>

datatype artifact = LedgerFile AuditLedger | AnalysisFile OutputFormat AnalysisOutput

definition emitOutputs ::
  "Env \<Rightarrow> WorkflowContext \<Rightarrow> WorkflowPlan \<Rightarrow> bool \<Rightarrow> string option \<Rightarrow> artifact list" where
  "emitOutputs env ctx plan passed' failureReason' =
     LedgerFile (buildLedger (nowISO env) ctx plan passed' failureReason')
     # (if passed' then [AnalysisFile (format (options ctx)) (buildAnalysisOutput ctx)]
        else [])"

definition pushResult :: "WorkflowContext \<Rightarrow> StepResult \<Rightarrow> WorkflowContext" where
  "pushResult ctx r = ctx\<lparr>stepResults := stepResults ctx @ [r]\<rparr>"

text \<open>The loop over \<open>plan.steps\<close>.  The result is the context and, when the loop was
  left through the enforcement branch, the message of the failure.  \<open>options'\<close> is the
  argument of \<open>runWorkflow\<close>, \<open>skipped\<close> the plan's \<open>skippedSteps\<close>.\<close>

fun runSteps ::
  "Env \<Rightarrow> AnalyzeOptions \<Rightarrow> StepName list \<Rightarrow> WorkflowStep list \<Rightarrow> WorkflowContext
     \<Rightarrow> WorkflowContext \<times> string option" where
  "runSteps env options' skipped [] ctx = (ctx, None)"
| "runSteps env options' skipped (step # rest) ctx =
     (if name step \<in> set skipped
      then runSteps env options' skipped rest
             (pushResult ctx
                \<lparr>rname = name step, status = Skipped, durationMs = 0, error = None\<rparr>)
      else
        (let duration = elapsed env (length (stepResults ctx))
         in case execute step ctx of
              (ctx', None) \<Rightarrow>
                runSteps env options' skipped rest
                  (pushResult ctx'
                     \<lparr>rname = name step, status = Passed, durationMs = duration,
                      error = None\<rparr>)
            | (ctx', Some message) \<Rightarrow>
                (let ctx'' = pushResult ctx'
                       \<lparr>rname = name step, status = Failed, durationMs = duration,
                        error = Some message\<rparr>
                 in if mode options' = Command \<and> required step
                    then (ctx'', Some message)
                    else runSteps env options' skipped rest ctx'')))"

text \<open>\<open>exitCode\<close> is 2 when the run ends in \<open>process.exit(2)\<close> and 0 when
  \<open>runWorkflow\<close> returns.\<close>

record RunOutcome =
  written :: "artifact list"
  exitCode :: nat
  finalContext :: WorkflowContext

definition initialContext :: "AnalyzeOptions \<Rightarrow> WorkflowContext" where
  "initialContext options' =
     \<lparr>options = options', rawContent = [], contentType = Html, extractedText = [],
      sections = [], analyses = [], stepResults = [], overallSummary = []\<rparr>"

definition runWorkflow :: "Env \<Rightarrow> AnalyzeOptions \<Rightarrow> WorkflowPlan option \<Rightarrow> RunOutcome" where
  "runWorkflow env options' intentPlan =
     (let plan = (case intentPlan of None \<Rightarrow> buildWorkflow env options' | Some p \<Rightarrow> p)
      in case runSteps env options' (skippedSteps plan) (steps plan) (initialContext options') of
           (ctx, Some message) \<Rightarrow>
             \<lparr>written = emitOutputs env ctx plan False (Some message), exitCode = 2,
              finalContext = ctx\<rparr>
         | (ctx, None) \<Rightarrow>
             \<lparr>written = emitOutputs env ctx plan True None, exitCode = 0,
              finalContext = ctx\<rparr>)"

text \<open>The ledgers among the files a run wrote.\<close>

fun ledgersOf :: "artifact list \<Rightarrow> AuditLedger list" where
  "ledgersOf [] = []"
| "ledgersOf (LedgerFile l # rest) = l # ledgersOf rest"
| "ledgersOf (AnalysisFile f a # rest) = ledgersOf rest"

section \<open>Sample inputs\<close>

definition sampleOptions :: "InvocationMode \<Rightarrow> AnalyzeOptions" where
  "sampleOptions m =
     \<lparr>ticker = ''AAPL'', year = 2023, mode = m, format = Json, out = ''./out'',
      source = Sec, url = None, require = [''risk-factors'', ''mdna'', ''financials''],
      strict = (m = Command), cache = True, invocationId = ''test_ledger_01''\<rparr>"

text \<open>What \<open>toFixed(2)\<close> prints for the confidence constants of the program; the
  samples render no other number.\<close>

definition sampleFixed2 :: "rat \<Rightarrow> string" where
  "sampleFixed2 x =
     (if x = 0 then ''0.00'' else if x = 1 / 2 then ''0.50'' else if x = 3 / 4 then ''0.75''
      else if x = 85 / 100 then ''0.85'' else if x = 9 / 10 then ''0.90''
      else if x = 95 / 100 then ''0.95'' else [])"

text \<open>A fetcher whose request fails, as on a network error.\<close>

definition offlineEnv :: Env where
  "offlineEnv =
     \<lparr>fetchFiling = (\<lambda>opts. Inl ''SEC request failed: 503''),
      extractText = (\<lambda>raw ct. Inr raw),
      parseBodyDivs = (\<lambda>html. []),
      elapsed = (\<lambda>k. 7),
      nowISO = ''2026-01-01T00:00:00.000Z'',
      toFixed2 = sampleFixed2\<rparr>"

definition emptyPlan :: WorkflowPlan where
  "emptyPlan = \<lparr>steps = [], skippedSteps = [], confidenceThreshold = 75 / 100\<rparr>"

text \<open>Sections as the validator test builds them: one not found, one found with low
  confidence and a short recorded length, and one whose recorded length (100) is not
  the length of its content (1000).\<close>

definition sampleMissing :: SectionMatch where
  "sampleMissing =
     \<lparr>sname = ''risk_factors'', found = False, confidence = 19 / 20, startOffset = 0,
      endOffset = 1000, lengthChars = 1000, content = replicate 1000 (CHR ''x'')\<rparr>"

definition sampleWeak :: SectionMatch where
  "sampleWeak =
     \<lparr>sname = ''financials'', found = True, confidence = 1 / 2, startOffset = 0,
      endOffset = 1000, lengthChars = 100, content = replicate 1000 (CHR ''x'')\<rparr>"

definition sampleSections :: "SectionMatch list" where
  "sampleSections = [sampleMissing, sampleWeak]"

definition shortRecorded :: SectionMatch where
  "shortRecorded =
     \<lparr>sname = ''risk_factors'', found = True, confidence = 19 / 20, startOffset = 0,
      endOffset = 1000, lengthChars = 100, content = replicate 1000 (CHR ''x'')\<rparr>"


text \<open>A found risk section with three sentences.\<close>

definition sampleRisk :: SectionMatch where
  "sampleRisk =
     \<lparr>sname = ''risk_factors'', found = True, confidence = 19 / 20, startOffset = 0,
      endOffset = 106, lengthChars = 106,
      content = ''Costs rose 5% in the year due to compliance. We face litigation risk and economic uncertainty. Short line.''\<rparr>"

section \<open>Properties of the ledger builder\<close>

text \<open>
  Claim C3, as stated: two calls of \<open>buildLedger\<close> with identical run context, plan,
  pass/fail flag and failure reason return identical ledgers.  The function reads the
  wall clock for the \<open>timestamp\<close> field, so two calls with the same four arguments at
  different times differ.
\<close>

theorem buildLedger_not_pure_counterexample:
  "buildLedger ''2026-01-01T00:00:00.000Z'' (initialContext (sampleOptions Command)) emptyPlan True None
   \<noteq> buildLedger ''2026-01-01T00:00:01.000Z'' (initialContext (sampleOptions Command)) emptyPlan True None"
  by (simp add: buildLedger_def initialContext_def emptyPlan_def)

text \<open>
  Claim C3, amended: apart from the \<open>timestamp\<close>, which is the clock reading at the
  call, the ledger is a function of the run context, the plan, the caller's pass/fail
  flag and the optional failure reason; the flag and the reason are copied unchanged.
\<close>

theorem buildLedger_pure_up_to_timestamp:
  "buildLedger now ctx plan p reason = (buildLedger now' ctx plan p reason)\<lparr>timestamp := now\<rparr>
   \<and> timestamp (buildLedger now ctx plan p reason) = now
   \<and> passed (buildLedger now ctx plan p reason) = p
   \<and> failureReason (buildLedger now ctx plan p reason) = reason"
  by (simp add: buildLedger_def split: prod.splits)

theorem buildLedger_pure_up_to_timestamp_witness:
  "buildLedger ''2026-01-01T00:00:00.000Z'' (initialContext (sampleOptions Intent)) emptyPlan
       False (Some ''missing section'')
   = (buildLedger ''2027-05-05T10:00:00.000Z'' (initialContext (sampleOptions Intent)) emptyPlan
       False (Some ''missing section''))\<lparr>timestamp := ''2026-01-01T00:00:00.000Z''\<rparr>"
  using buildLedger_pure_up_to_timestamp
          [of "''2026-01-01T00:00:00.000Z''" "initialContext (sampleOptions Intent)" emptyPlan
              False "Some ''missing section''" "''2027-05-05T10:00:00.000Z''"]
  by simp

section \<open>Properties of the workflow planner\<close>

text \<open>
  Claim C5: for every options value, \<open>buildWorkflow\<close> returns the six steps in the
  order fetch, extract, locate_sections, validate, generate, emit_ledger; fetch,
  extract, locate_sections and emit_ledger are required unconditionally, validate
  and generate exactly when the mode is command; the plan's \<open>skippedSteps\<close> is empty;
  the threshold is 0.75 in command mode and 0.5 otherwise, and the command threshold
  is at least the intent threshold.
\<close>

theorem buildWorkflow_plan:
  "map name (steps (buildWorkflow env opts))
     = [Fetch, Extract, Locate_sections, Validate, Generate, Emit_ledger]
   \<and> map required (steps (buildWorkflow env opts))
     = [True, True, True, mode opts = Command, mode opts = Command, True]
   \<and> skippedSteps (buildWorkflow env opts) = []
   \<and> confidenceThreshold (buildWorkflow env opts)
     = (if mode opts = Command then 75 / 100 else 5 / 10)
   \<and> INTENT_CONFIDENCE_THRESHOLD \<le> COMMAND_CONFIDENCE_THRESHOLD"
  by (simp add: buildWorkflow_def Let_def COMMAND_CONFIDENCE_THRESHOLD_def
        INTENT_CONFIDENCE_THRESHOLD_def)

theorem buildWorkflow_plan_witness:
  "map required (steps (buildWorkflow offlineEnv (sampleOptions Intent)))
     = [True, True, True, False, False, True]
   \<and> confidenceThreshold (buildWorkflow offlineEnv (sampleOptions Intent)) = 1 / 2
   \<and> map required (steps (buildWorkflow offlineEnv (sampleOptions Command)))
     = [True, True, True, True, True, True]
   \<and> confidenceThreshold (buildWorkflow offlineEnv (sampleOptions Command)) = 3 / 4"
  using buildWorkflow_plan [of offlineEnv "sampleOptions Intent"]
        buildWorkflow_plan [of offlineEnv "sampleOptions Command"]
  by (simp add: sampleOptions_def)

section \<open>Properties of the orchestrator\<close>

text \<open>The step loop leaves through the enforcement branch only in command mode, right
  after recording the failure of a required step that was not skipped.\<close>

lemma runSteps_halt_cause:
  "runSteps env opts sk sts ctx = (ctx', Some m) \<Longrightarrow>
     mode opts = Command
     \<and> stepResults ctx' \<noteq> []
     \<and> status (last (stepResults ctx')) = Failed
     \<and> error (last (stepResults ctx')) = Some m
     \<and> (\<exists>step \<in> set sts. required step \<and> name step = rname (last (stepResults ctx'))
                             \<and> name step \<notin> set sk)"
proof (induction sts arbitrary: ctx)
  case Nil
  then show ?case by simp
next
  case (Cons step rest)
  show ?case
  proof (cases "name step \<in> set sk")
    case True
    with Cons.prems have "runSteps env opts sk rest
             (pushResult ctx
                \<lparr>rname = name step, status = Skipped, durationMs = 0, error = None\<rparr>) = (ctx', Some m)"
      by simp
    from Cons.IH [OF this] show ?thesis by auto
  next
    case False
    obtain c e where ex: "execute step ctx = (c, e)" by (cases "execute step ctx")
    show ?thesis
    proof (cases e)
      case None
      with Cons.prems False ex have "runSteps env opts sk rest
                  (pushResult c
                     \<lparr>rname = name step, status = Passed,
                      durationMs = elapsed env (length (stepResults ctx)), error = None\<rparr>) = (ctx', Some m)"
        by (simp add: Let_def)
      from Cons.IH [OF this] show ?thesis by auto
    next
      case (Some msg)
      show ?thesis
      proof (cases "mode opts = Command \<and> required step")
        case True
        with Cons.prems False ex Some show ?thesis
          by (auto simp: Let_def pushResult_def)
      next
        case nh: False
        with Cons.prems False ex Some have "runSteps env opts sk rest
                  (pushResult c
                     \<lparr>rname = name step, status = Failed,
                      durationMs = elapsed env (length (stepResults ctx)), error = Some msg\<rparr>) = (ctx', Some m)"
          by (auto simp: Let_def)
        from Cons.IH [OF this] show ?thesis by auto
      qed
    qed
  qed
qed

text \<open>When the work units leave \<open>ctx.stepResults\<close> alone, the loop appends one result
  per step it reaches, in plan order; a step is recorded as skipped exactly when its
  name is in the skip list.\<close>

lemma runSteps_results:
  assumes "\<forall>step \<in> set sts. \<forall>c. stepResults (fst (execute step c)) = stepResults c"
      and "runSteps env opts sk sts ctx = (ctx', h)"
  shows "\<exists>rs. stepResults ctx' = stepResults ctx @ rs
            \<and> map rname rs = map name (take (length rs) sts)
            \<and> (h = None \<longrightarrow> length rs = length sts)
            \<and> (\<forall>r \<in> set rs. if rname r \<in> set sk then status r = Skipped
                               else status r = Passed \<or> status r = Failed)"
  using assms
proof (induction sts arbitrary: ctx)
  case Nil
  then show ?case by simp
next
  case (Cons step rest)
  have keep: "\<forall>s \<in> set rest. \<forall>c. stepResults (fst (execute s c)) = stepResults c"
    using Cons.prems(1) by simp
  obtain c e where ex: "execute step ctx = (c, e)" by (cases "execute step ctx")
  have c: "stepResults c = stepResults ctx" using Cons.prems(1) ex
    by (metis fst_conv list.set_intros(1))
  define r where "r = (if name step \<in> set sk
      then \<lparr>rname = name step, status = Skipped, durationMs = 0, error = None\<rparr>
      else case e of None \<Rightarrow> \<lparr>rname = name step, status = Passed,
                      durationMs = elapsed env (length (stepResults ctx)), error = None\<rparr>
           | Some msg \<Rightarrow> \<lparr>rname = name step, status = Failed,
                      durationMs = elapsed env (length (stepResults ctx)), error = Some msg\<rparr>)"
  have rn: "rname r = name step" by (simp add: r_def split: option.splits)
  have rs: "if rname r \<in> set sk then status r = Skipped else status r = Passed \<or> status r = Failed"
    by (simp add: r_def split: option.splits)
  show ?case
  proof (cases "name step \<notin> set sk \<and> e \<noteq> None \<and> mode opts = Command \<and> required step")
    case True
    then have "ctx' = pushResult c r" "h \<noteq> None"
      using Cons.prems(2) ex by (auto simp: Let_def r_def)
    then have "stepResults ctx' = stepResults ctx @ [r]" by (simp add: pushResult_def c)
    then show ?thesis using rn rs \<open>h \<noteq> None\<close> by (intro exI [of _ "[r]"]) auto
  next
    case False
    then have "runSteps env opts sk rest (pushResult (if name step \<in> set sk then ctx else c) r) = (ctx', h)"
      using Cons.prems(2) ex by (auto simp: Let_def r_def split: option.splits)
    from Cons.IH [OF keep this] obtain rs' where
      rs': "stepResults ctx' = stepResults (pushResult (if name step \<in> set sk then ctx else c) r) @ rs'"
           "map rname rs' = map name (take (length rs') rest)"
           "h = None \<longrightarrow> length rs' = length rest"
           "\<forall>r \<in> set rs'. if rname r \<in> set sk then status r = Skipped
                               else status r = Passed \<or> status r = Failed"
      by blast
    have "stepResults ctx' = stepResults ctx @ (r # rs')"
      using rs'(1) c by (simp add: pushResult_def)
    then show ?thesis using rs' rn rs by (intro exI [of _ "r # rs'"]) simp
  qed
qed

text \<open>On such results the ledger's first loop keeps the plan's skip list and collects
  the other names as executed.\<close>

lemma classifyResults_run:
  assumes "\<forall>r \<in> set rs. if rname r \<in> set s then status r = Skipped
                               else status r = Passed \<or> status r = Failed"
  shows "snd (classifyResults rs (d, e, s)) = (e @ filter (\<lambda>n. n \<notin> set s) (map rname rs), s)"
  using assms
proof (induction rs arbitrary: d e)
  case Nil
  then show ?case by simp
next
  case (Cons r rs)
  then show ?case by (cases "rname r \<in> set s") auto
qed

lemma distinct_count_list_one:
  "distinct xs \<Longrightarrow> count_list xs n = (if n \<in> set xs then 1 else 0)"
  by (induction xs) auto

lemma buildWorkflow_leaves_results:
  "\<forall>step \<in> set (steps (buildWorkflow env stub)). \<forall>c. stepResults (fst (execute step c)) = stepResults c"
  by (auto simp: buildWorkflow_def Let_def fetchStep_def extractStep_def locateStep_def
        validateStep_def generateStep_def split: sum.splits)

lemma runSteps_lenient:
  "mode opts \<noteq> Command \<or> (\<forall>step \<in> set sts. \<not> required step) \<Longrightarrow>
     snd (runSteps env opts sk sts ctx) = None"
proof -
  assume a: "mode opts \<noteq> Command \<or> (\<forall>step \<in> set sts. \<not> required step)"
  obtain c h where r: "runSteps env opts sk sts ctx = (c, h)" by (cases "runSteps env opts sk sts ctx")
  show ?thesis
  proof (cases h)
    case None
    with r show ?thesis by simp
  next
    case (Some m)
    with r runSteps_halt_cause [of env opts sk sts ctx c m] a show ?thesis by blast
  qed
qed

lemma set_ALL_REQUIRED_STEPS: "set ALL_REQUIRED_STEPS = UNIV"
proof -
  have "n \<in> set ALL_REQUIRED_STEPS" for n
    by (cases n) (simp_all add: ALL_REQUIRED_STEPS_def)
  then show ?thesis by blast
qed

lemma runWorkflow_lenient_exit:
  assumes "mode opts \<noteq> Command"
  shows "exitCode (runWorkflow env opts intentPlan) = 0"
proof -
  define p where "p = (case intentPlan of None \<Rightarrow> buildWorkflow env opts | Some q \<Rightarrow> q)"
  obtain ctx h where run: "runSteps env opts (skippedSteps p) (steps p) (initialContext opts) = (ctx, h)"
    by (cases "runSteps env opts (skippedSteps p) (steps p) (initialContext opts)")
  have "h = None"
    using runSteps_lenient [of opts "steps p" env "skippedSteps p" "initialContext opts"] assms run
    by simp
  then show ?thesis using run by (simp add: runWorkflow_def p_def [symmetric])
qed

text \<open>The skip lists of both routers name no step twice.\<close>

lemma router_skips_distinct:
  "distinct (computeProbabilisticSkips isVague r1 r2 r3) \<and> distinct (llmSkippedSteps llmSteps)"
  by (simp add: computeProbabilisticSkips_def llmSkippedSteps_def ALL_STEPS_def)

text \<open>
  Claim C1, amended: for every run that is not halted by the enforcement rule (it ends
  with exit code 0, ledger \<open>passed = true\<close>), in either mode, whose plan is the one
  \<open>buildWorkflow\<close> returns, possibly with a skip list without repetition written into
  it by a router (both routers produce such lists), exactly one ledger is written,
  and every name of the six-step universe occurs exactly once in \<open>executedSteps\<close>
  followed by \<open>skippedSteps\<close>: in exactly one of the two lists, and only once there.
\<close>

theorem ledger_covers_every_step_once:
  assumes plan: "intentPlan = None \<or> intentPlan = Some (routedPlan env stub sk) \<and> distinct sk"
      and fin: "exitCode (runWorkflow env opts intentPlan) = 0"
  shows "\<exists>L. ledgersOf (written (runWorkflow env opts intentPlan)) = [L]
            \<and> requiredSteps L = ALL_REQUIRED_STEPS
            \<and> (\<forall>n \<in> set ALL_REQUIRED_STEPS.
                  count_list (executedSteps L @ l_skippedSteps L) n = 1)"
proof -
  define p where "p = (case intentPlan of None \<Rightarrow> buildWorkflow env opts | Some q \<Rightarrow> q)"
  obtain b s where p: "p = (buildWorkflow env b)\<lparr>skippedSteps := s\<rparr>" and s: "distinct s"
  proof (cases intentPlan)
    case None
    then have "p = (buildWorkflow env opts)\<lparr>skippedSteps := []\<rparr>"
      by (simp add: p_def buildWorkflow_def Let_def)
    then show ?thesis using that by simp
  next
    case (Some q)
    with plan show ?thesis using that by (simp add: p_def routedPlan_def)
  qed
  have names: "map name (steps p) = ALL_REQUIRED_STEPS"
    by (simp add: p buildWorkflow_def Let_def ALL_REQUIRED_STEPS_def)
  have keeps: "\<forall>step \<in> set (steps p). \<forall>c. stepResults (fst (execute step c)) = stepResults c"
    using buildWorkflow_leaves_results [of env b] by (simp add: p)
  have sk: "skippedSteps p = s" by (simp add: p)
  obtain ctx h where run: "runSteps env opts s (steps p) (initialContext opts) = (ctx, h)"
    by (cases "runSteps env opts s (steps p) (initialContext opts)")
  have h: "h = None"
    using fin run sk by (cases h) (simp_all add: runWorkflow_def p_def [symmetric])
  from runSteps_results [OF keeps run] h obtain rs where
    rs: "stepResults ctx = rs" "map rname rs = ALL_REQUIRED_STEPS"
        "\<forall>r \<in> set rs. if rname r \<in> set s then status r = Skipped
                               else status r = Passed \<or> status r = Failed"
    using names by (auto simp: initialContext_def)
  define L where "L = buildLedger (nowISO env) ctx p True None"
  have w: "ledgersOf (written (runWorkflow env opts intentPlan)) = [L]"
    using run h sk by (simp add: runWorkflow_def p_def [symmetric] emitOutputs_def L_def)
  have cls: "snd (classifyResults rs (Map.empty, [], s))
               = ([] @ filter (\<lambda>n. n \<notin> set s) (map rname rs), s)"
    by (rule classifyResults_run [OF rs(3)])
  obtain d' e' s' where c3: "classifyResults rs (Map.empty, [], s) = (d', e', s')"
    by (cases "classifyResults rs (Map.empty, [], s)")
  have ex: "executedSteps L = filter (\<lambda>n. n \<notin> set s) ALL_REQUIRED_STEPS"
    and skp: "l_skippedSteps L = s"
    using cls c3 rs(1,2) sk by (simp_all add: L_def buildLedger_def)
  have req: "requiredSteps L = ALL_REQUIRED_STEPS"
    by (simp add: L_def buildLedger_def split: prod.splits)
  have d: "distinct ALL_REQUIRED_STEPS" by (simp add: ALL_REQUIRED_STEPS_def)
  have cnt: "count_list (executedSteps L @ l_skippedSteps L) n = 1" for n
  proof -
    have "n \<in> set ALL_REQUIRED_STEPS" by (simp add: set_ALL_REQUIRED_STEPS)
    then show ?thesis
      using d s by (simp add: ex skp distinct_count_list_one)
  qed
  show ?thesis using w req cnt by blast
qed

text \<open>A lenient run of the heuristic router's plan, with draws that skip \<open>validate\<close> and
  \<open>generate\<close>, while the fetcher is offline.\<close>

theorem ledger_covers_every_step_once_witness:
  "computeProbabilisticSkips False (1 / 4) (9 / 10) (1 / 10) = [Validate, Generate]
   \<and> distinct (computeProbabilisticSkips False (1 / 4) (9 / 10) (1 / 10))
   \<and> exitCode (runWorkflow offlineEnv (sampleOptions Intent)
        (Some (routedPlan offlineEnv (sampleOptions Intent)
                 (computeProbabilisticSkips False (1 / 4) (9 / 10) (1 / 10))))) = 0
   \<and> (\<exists>L. ledgersOf (written (runWorkflow offlineEnv (sampleOptions Intent)
        (Some (routedPlan offlineEnv (sampleOptions Intent)
                 (computeProbabilisticSkips False (1 / 4) (9 / 10) (1 / 10)))))) = [L]
        \<and> requiredSteps L = ALL_REQUIRED_STEPS
        \<and> (\<forall>n \<in> set ALL_REQUIRED_STEPS.
                  count_list (executedSteps L @ l_skippedSteps L) n = 1))"
proof -
  have e: "exitCode (runWorkflow offlineEnv (sampleOptions Intent)
        (Some (routedPlan offlineEnv (sampleOptions Intent)
                 (computeProbabilisticSkips False (1 / 4) (9 / 10) (1 / 10))))) = 0"
    by (rule runWorkflow_lenient_exit) (simp add: sampleOptions_def)
  have v: "computeProbabilisticSkips False (1 / 4) (9 / 10) (1 / 10) = [Validate, Generate]"
    by (simp add: computeProbabilisticSkips_def)
  have d: "distinct (computeProbabilisticSkips False (1 / 4) (9 / 10) (1 / 10))"
    by (simp add: v)
  show ?thesis
    using ledger_covers_every_step_once
      [where intentPlan = "Some (routedPlan offlineEnv (sampleOptions Intent)
                 (computeProbabilisticSkips False (1 / 4) (9 / 10) (1 / 10)))"
         and env = offlineEnv and stub = "sampleOptions Intent"
         and sk = "computeProbabilisticSkips False (1 / 4) (9 / 10) (1 / 10)"
         and opts = "sampleOptions Intent"] e d v
    by blast
qed

text \<open>
  Claim C1, as stated (every run, every mode): a command-mode run whose fetch step
  fails is halted after that step; its ledger lists \<open>fetch\<close> as executed and nothing
  as skipped, so \<open>extract\<close> (like the four steps after it) is in neither list.
\<close>

theorem ledger_halted_run_counterexample:
  "executedSteps (hd (ledgersOf (written (runWorkflow offlineEnv (sampleOptions Command) None)))) = [Fetch]
   \<and> l_skippedSteps (hd (ledgersOf (written (runWorkflow offlineEnv (sampleOptions Command) None)))) = []
   \<and> count_list
        (executedSteps (hd (ledgersOf (written (runWorkflow offlineEnv (sampleOptions Command) None))))
         @ l_skippedSteps (hd (ledgersOf (written (runWorkflow offlineEnv (sampleOptions Command) None)))))
        Extract = 0"
  by (simp add: runWorkflow_def buildWorkflow_def Let_def sampleOptions_def offlineEnv_def
        initialContext_def fetchStep_def pushResult_def emitOutputs_def buildLedger_def)




section \<open>Properties of the section validator\<close>

lemma collectFailures_concat:
  "collectFailures fixed2 S thr K acc = acc @ concat (map (keyFailures fixed2 S thr) K)"
  by (induction K arbitrary: acc) simp_all

lemma keyFailures_empty_iff:
  "(keyFailures fixed2 S thr k = []) =
     (case find (\<lambda>s. matchesSectionKey (sname s) k) S of
        None \<Rightarrow> False
      | Some s \<Rightarrow> found s \<and> \<not> confidence s < thr \<and> \<not> lengthChars s < 500)"
  by (simp add: keyFailures_def MIN_SECTION_LENGTH_def split: option.splits)

lemma showInt_500: "showInt 500 = ''500''"
  by (simp add: showInt_def)

text \<open>Every failure line occurs in the composite message.\<close>

lemma includes_str_prefix: "includes_str (f @ b) f"
proof (cases "f @ b")
  case Nil
  then show ?thesis by simp
next
  case (Cons c cs)
  have "take (length f) (f @ b) = f" by simp
  then have "take (length f) (c # cs) = f" by (simp only: Cons)
  then show ?thesis by (simp only: Cons includes_str.simps) simp
qed

lemma includes_str_middle: "includes_str (a @ f @ b) f"
proof (induction a)
  case Nil
  show ?case using includes_str_prefix [of f b] by simp
next
  case (Cons x a)
  then show ?case by simp
qed

lemma join_contains: "f \<in> set fs \<Longrightarrow> \<exists>a b. join sep fs = a @ f @ b"
proof (induction sep fs rule: join.induct)
  case (1 sep)
  then show ?case by simp
next
  case (2 sep x)
  then have "join sep [x] = [] @ f @ []" by simp
  then show ?case by blast
next
  case (3 sep x y ys)
  show ?case
  proof (cases "f = x")
    case True
    then have "join sep (x # y # ys) = [] @ f @ (sep @ join sep (y # ys))" by simp
    then show ?thesis by blast
  next
    case False
    with 3 obtain a b where "join sep (y # ys) = a @ f @ b" by auto
    then have "join sep (x # y # ys) = (x @ sep @ a) @ f @ b" by simp
    then show ?thesis by blast
  qed
qed

lemma compositeMessage_includes:
  assumes "f \<in> set fs"
  shows "includes_str (compositeMessage fs) f"
proof -
  from join_contains [OF assms] obtain a b
    where "join ([CHR 0x0A] @ ''  - '') fs = a @ f @ b" by blast
  then have "compositeMessage fs = (''Validation failed:'' @ [CHR 0x0A] @ ''  - '' @ a) @ f @ b"
    by (simp add: compositeMessage_def)
  then show ?thesis using includes_str_middle by metis
qed


text \<open>
  Claim C4, amended: \<open>validateSections\<close> throws exactly when \<open>hardFail\<close> is set and
  some required key fails a check: its resolved section is absent or not found, or its
  confidence is below the threshold, or the length it records (\<open>lengthChars\<close>) is
  below 500; where every section records the length of its content, as every section
  of the locator does, that is the content's length.  The thrown message is the line
  "Validation failed:" followed by the failure lines of all required keys, in request
  order, each on its own line after two spaces and a dash, so every failure line of
  every key occurs in it; without \<open>hardFail\<close> the function returns.  A key whose
  section is absent or not found has the single line "Section "k" not found in
  filing"; a found section has the confidence line exactly when its confidence is below
  the threshold and the length line exactly when its recorded length is below 500,
  each whatever the other check says.
\<close>

theorem validateSections_hard_fail:
  "(((\<exists>m. validateSections fixed2 S K thr hardFail = Inl m) =
      (hardFail \<and> (\<exists>k \<in> set K.
         case find (\<lambda>s. matchesSectionKey (sname s) k) S of
           None \<Rightarrow> True
         | Some s \<Rightarrow> \<not> found s \<or> confidence s < thr \<or> lengthChars s < 500)))
   \<and> (\<forall>m. validateSections fixed2 S K thr hardFail = Inl m \<longrightarrow>
          m = ''Validation failed:'' @ [CHR 0x0A] @ ''  - ''
              @ join ([CHR 0x0A] @ ''  - '') (concat (map (keyFailures fixed2 S thr) K))
          \<and> (\<forall>k \<in> set K. \<forall>f \<in> set (keyFailures fixed2 S thr k). includes_str m f))
   \<and> (\<not> hardFail \<longrightarrow> (\<exists>w. validateSections fixed2 S K thr hardFail = Inr w))
   \<and> (\<forall>k. keyFailures fixed2 S thr k =
          (case find (\<lambda>s. matchesSectionKey (sname s) k) S of
             None \<Rightarrow> [''Section '' @ [CHR 0x22] @ k @ [CHR 0x22] @ '' not found in filing'']
           | Some s \<Rightarrow>
               if \<not> found s
               then [''Section '' @ [CHR 0x22] @ k @ [CHR 0x22] @ '' not found in filing'']
               else (if confidence s < thr
                     then [''Section '' @ [CHR 0x22] @ k @ [CHR 0x22] @ '' confidence ''
                           @ fixed2 (confidence s) @ '' below threshold '' @ fixed2 thr]
                     else [])
                    @ (if lengthChars s < 500
                       then [''Section '' @ [CHR 0x22] @ k @ [CHR 0x22] @ '' too short (''
                             @ showInt (lengthChars s) @ '' chars, minimum 500)'']
                       else [])))
   \<and> ((\<forall>s \<in> set S. lengthChars s = int (length (content s))) \<longrightarrow>
          (\<exists>m. validateSections fixed2 S K thr hardFail = Inl m) =
            (hardFail \<and> (\<exists>k \<in> set K.
               case find (\<lambda>s. matchesSectionKey (sname s) k) S of
                 None \<Rightarrow> True
               | Some s \<Rightarrow> \<not> found s \<or> confidence s < thr \<or> length (content s) < 500))))"
proof -
  have fails: "(concat (map (keyFailures fixed2 S thr) K) \<noteq> []) =
      (\<exists>k \<in> set K.
         case find (\<lambda>s. matchesSectionKey (sname s) k) S of
           None \<Rightarrow> True
         | Some s \<Rightarrow> \<not> found s \<or> confidence s < thr \<or> lengthChars s < 500)"
    by (auto simp: keyFailures_empty_iff split: option.splits)
  have a: "(\<exists>m. validateSections fixed2 S K thr hardFail = Inl m) =
      (hardFail \<and> (\<exists>k \<in> set K.
         case find (\<lambda>s. matchesSectionKey (sname s) k) S of
           None \<Rightarrow> True
         | Some s \<Rightarrow> \<not> found s \<or> confidence s < thr \<or> lengthChars s < 500))"
    unfolding fails [symmetric]
    by (simp add: validateSections_def collectFailures_concat Let_def)
  have b: "\<forall>m. validateSections fixed2 S K thr hardFail = Inl m \<longrightarrow>
          m = ''Validation failed:'' @ [CHR 0x0A] @ ''  - ''
              @ join ([CHR 0x0A] @ ''  - '') (concat (map (keyFailures fixed2 S thr) K))
          \<and> (\<forall>k \<in> set K. \<forall>f \<in> set (keyFailures fixed2 S thr k). includes_str m f)"
  proof (intro allI impI)
    fix m assume "validateSections fixed2 S K thr hardFail = Inl m"
    then have m: "m = compositeMessage (concat (map (keyFailures fixed2 S thr) K))"
      by (simp add: validateSections_def collectFailures_concat Let_def split: if_splits)
    have "includes_str m f" if "k \<in> set K" "f \<in> set (keyFailures fixed2 S thr k)" for k f
    proof -
      from that have "f \<in> set (concat (map (keyFailures fixed2 S thr) K))" by auto
      then show ?thesis unfolding m by (rule compositeMessage_includes)
    qed
    with m show "m = ''Validation failed:'' @ [CHR 0x0A] @ ''  - ''
              @ join ([CHR 0x0A] @ ''  - '') (concat (map (keyFailures fixed2 S thr) K))
          \<and> (\<forall>k \<in> set K. \<forall>f \<in> set (keyFailures fixed2 S thr k). includes_str m f)"
      by (simp add: compositeMessage_def)
  qed
  have c: "\<not> hardFail \<longrightarrow> (\<exists>w. validateSections fixed2 S K thr hardFail = Inr w)"
    by (simp add: validateSections_def Let_def)
  have d: "\<forall>k. keyFailures fixed2 S thr k =
          (case find (\<lambda>s. matchesSectionKey (sname s) k) S of
             None \<Rightarrow> [''Section '' @ [CHR 0x22] @ k @ [CHR 0x22] @ '' not found in filing'']
           | Some s \<Rightarrow>
               if \<not> found s
               then [''Section '' @ [CHR 0x22] @ k @ [CHR 0x22] @ '' not found in filing'']
               else (if confidence s < thr
                     then [''Section '' @ [CHR 0x22] @ k @ [CHR 0x22] @ '' confidence ''
                           @ fixed2 (confidence s) @ '' below threshold '' @ fixed2 thr]
                     else [])
                    @ (if lengthChars s < 500
                       then [''Section '' @ [CHR 0x22] @ k @ [CHR 0x22] @ '' too short (''
                             @ showInt (lengthChars s) @ '' chars, minimum 500)'']
                       else []))"
    by (simp add: keyFailures_def notFoundMessage_def confidenceMessage_def tooShortMessage_def
          sectionQ_def showInt_500 MIN_SECTION_LENGTH_def split: option.splits)
  have e: "(\<forall>s \<in> set S. lengthChars s = int (length (content s))) \<longrightarrow>
          (\<exists>m. validateSections fixed2 S K thr hardFail = Inl m) =
            (hardFail \<and> (\<exists>k \<in> set K.
               case find (\<lambda>s. matchesSectionKey (sname s) k) S of
                 None \<Rightarrow> True
               | Some s \<Rightarrow> \<not> found s \<or> confidence s < thr \<or> length (content s) < 500))"
  proof
    assume len: "\<forall>s \<in> set S. lengthChars s = int (length (content s))"
    have "(case find (\<lambda>s. matchesSectionKey (sname s) k) S of
                 None \<Rightarrow> True
               | Some s \<Rightarrow> \<not> found s \<or> confidence s < thr \<or> length (content s) < 500)
          = (case find (\<lambda>s. matchesSectionKey (sname s) k) S of
                 None \<Rightarrow> True
               | Some s \<Rightarrow> \<not> found s \<or> confidence s < thr \<or> lengthChars s < 500)" for k
    proof (cases "find (\<lambda>s. matchesSectionKey (sname s) k) S")
      case None
      then show ?thesis by simp
    next
      case (Some s)
      then have "s \<in> set S" by (auto simp: find_Some_iff)
      with len have "lengthChars s = int (length (content s))" by blast
      with Some show ?thesis by simp
    qed
    then show "(\<exists>m. validateSections fixed2 S K thr hardFail = Inl m) =
            (hardFail \<and> (\<exists>k \<in> set K.
               case find (\<lambda>s. matchesSectionKey (sname s) k) S of
                 None \<Rightarrow> True
               | Some s \<Rightarrow> \<not> found s \<or> confidence s < thr \<or> length (content s) < 500))"
      using a by simp
  qed
  from a b c d e show ?thesis by (intro conjI)
qed

theorem validateSections_hard_fail_witness:
  "(\<exists>m. validateSections sampleFixed2 sampleSections [''risk-factors'', ''financials''] (3 / 4) True
          = Inl m
        \<and> m = ''Validation failed:'' @ [CHR 0x0A]
              @ ''  - Section '' @ [CHR 0x22] @ ''risk-factors'' @ [CHR 0x22] @ '' not found in filing''
              @ [CHR 0x0A]
              @ ''  - Section '' @ [CHR 0x22] @ ''financials'' @ [CHR 0x22]
              @ '' confidence 0.50 below threshold 0.75'' @ [CHR 0x0A]
              @ ''  - Section '' @ [CHR 0x22] @ ''financials'' @ [CHR 0x22]
              @ '' too short (100 chars, minimum 500)''
        \<and> includes_str m (''Section '' @ [CHR 0x22] @ ''financials'' @ [CHR 0x22]
                             @ '' too short (100 chars, minimum 500)''))
   \<and> (\<exists>w. validateSections sampleFixed2 sampleSections [''risk-factors'', ''financials'']
            (3 / 4) False = Inr w)"
proof -
  have m0: "matchesSectionKey ''risk_factors'' ''risk-factors''"
    and m1: "\<not> matchesSectionKey ''risk_factors'' ''financials''"
    and m2: "matchesSectionKey ''financials'' ''financials''"
    by (simp_all add: matchesSectionKey_def SECTION_PATTERNS_def toLowerCase_def lowerChar_def)
  have f0: "find (\<lambda>s. matchesSectionKey (sname s) ''risk-factors'') sampleSections
              = Some sampleMissing"
    and f1: "find (\<lambda>s. matchesSectionKey (sname s) ''financials'') sampleSections
              = Some sampleWeak"
    by (simp_all add: sampleSections_def sampleMissing_def sampleWeak_def m0 m1 m2)
  have v: "\<not> found sampleMissing" "found sampleWeak"
          "confidence sampleWeak = 1 / 2" "lengthChars sampleWeak = 100"
    by (simp_all add: sampleMissing_def sampleWeak_def)
  have r: "sampleFixed2 (1 / 2) = ''0.50''" "sampleFixed2 (3 / 4) = ''0.75''"
          "showInt 100 = ''100''"
    by (simp_all add: sampleFixed2_def showInt_def)
  note t = validateSections_hard_fail
             [of sampleFixed2 sampleSections "[''risk-factors'', ''financials'']" "3 / 4"]
  from t [of True] have k: "keyFailures sampleFixed2 sampleSections (3 / 4) ''risk-factors''
      = [''Section '' @ [CHR 0x22] @ ''risk-factors'' @ [CHR 0x22] @ '' not found in filing'']"
    "keyFailures sampleFixed2 sampleSections (3 / 4) ''financials''
      = [''Section '' @ [CHR 0x22] @ ''financials'' @ [CHR 0x22]
           @ '' confidence 0.50 below threshold 0.75'',
         ''Section '' @ [CHR 0x22] @ ''financials'' @ [CHR 0x22]
           @ '' too short (100 chars, minimum 500)'']"
    by (simp_all add: f0 f1 v r)
  from t [of True] have "\<exists>m. validateSections sampleFixed2 sampleSections
                                [''risk-factors'', ''financials''] (3 / 4) True = Inl m"
    by (simp add: f0 v)
  then obtain m where m: "validateSections sampleFixed2 sampleSections
                                [''risk-factors'', ''financials''] (3 / 4) True = Inl m"
    by blast
  with t [of True] have
    msg: "m = ''Validation failed:'' @ [CHR 0x0A] @ ''  - ''
              @ join ([CHR 0x0A] @ ''  - '')
                  (concat (map (keyFailures sampleFixed2 sampleSections (3 / 4))
                             [''risk-factors'', ''financials'']))"
    and inc: "\<forall>k \<in> set [''risk-factors'', ''financials''].
               \<forall>f \<in> set (keyFailures sampleFixed2 sampleSections (3 / 4) k). includes_str m f"
    by blast+
  from inc have i: "includes_str m (''Section '' @ [CHR 0x22] @ ''financials'' @ [CHR 0x22]
                             @ '' too short (100 chars, minimum 500)'')"
    by (simp add: k)
  from msg have x: "m = ''Validation failed:'' @ [CHR 0x0A]
              @ ''  - Section '' @ [CHR 0x22] @ ''risk-factors'' @ [CHR 0x22] @ '' not found in filing''
              @ [CHR 0x0A]
              @ ''  - Section '' @ [CHR 0x22] @ ''financials'' @ [CHR 0x22]
              @ '' confidence 0.50 below threshold 0.75'' @ [CHR 0x0A]
              @ ''  - Section '' @ [CHR 0x22] @ ''financials'' @ [CHR 0x22]
              @ '' too short (100 chars, minimum 500)''"
    by (simp add: k)
  from t [of False] have s: "\<exists>w. validateSections sampleFixed2 sampleSections
            [''risk-factors'', ''financials''] (3 / 4) False = Inr w"
    by simp
  from m x i s show ?thesis by blast
qed

text \<open>
  Claim C4, as stated (the length check is on the content's length): the section of the
  validator's own test, found, with confidence 0.95, a content of 1000 characters and
  a recorded length of 100, makes \<open>validateSections\<close> throw "too short", although none
  of the three checks, read on the content's length, fails.
\<close>

theorem validateSections_content_length_counterexample:
  "validateSections sampleFixed2 [shortRecorded] [''risk-factors''] (3 / 4) True
     = Inl (''Validation failed:'' @ [CHR 0x0A] @ ''  - Section '' @ [CHR 0x22] @ ''risk-factors''
            @ [CHR 0x22] @ '' too short (100 chars, minimum 500)'')
   \<and> matchesSectionKey (sname shortRecorded) ''risk-factors''
   \<and> found shortRecorded
   \<and> \<not> confidence shortRecorded < 3 / 4
   \<and> length (content shortRecorded) = 1000
   \<and> \<not> length (content shortRecorded) < 500"
  by (simp add: validateSections_def keyFailures_def compositeMessage_def tooShortMessage_def
        sectionQ_def showInt_def MIN_SECTION_LENGTH_def shortRecorded_def matchesSectionKey_def
        SECTION_PATTERNS_def toLowerCase_def lowerChar_def)

section \<open>Properties of the section locator\<close>

text \<open>Unfolding rules for evaluating the patterns and the locator on a given input.\<close>

lemmas regex_eval =
  lit_def sepClass_def exec_def test_def inClass_def sameFolded_def isUpperAZ_def
  isLowerAZ_def isDigit_def isSpace_def isWordChar_def wordSide_def headOpt_def
  trim_def NEXT_ITEM_HEADING_def Let_def

lemmas locator_eval =
  locateSections_def locateInText_def locateInHtml_def SECTION_PATTERNS_def unanchored_def
  itemPrefix_def extractTextSection_def makeNotFound_def findSectionByDomSiblings_def
  blockText_def collapseWs_def

lemma firstPattern_None: "(\<forall>r \<in> set ps. \<not> test r txt) \<Longrightarrow> firstPattern ps txt i = None"
  by (induction ps arbitrary: i) simp_all

lemma findHeading_None:
  "(\<forall>d \<in> set ds. \<forall>r \<in> set ps. \<not> test r (blockText d)) \<Longrightarrow> findHeading ps ds i = None"
  by (induction ds arbitrary: i) (simp_all add: Let_def firstPattern_None)

lemma findHeading_confidence:
  "findHeading ps ds i = Some (h, c) \<Longrightarrow> c = 95 / 100 \<or> c = 90 / 100"
  by (induction ds arbitrary: i) (auto simp: Let_def split: if_splits option.splits)

lemma locateTextPattern_None:
  "(\<forall>r \<in> set rs. exec r txt = None) \<Longrightarrow> locateTextPattern nm txt rs i = makeNotFound nm"
  by (induction rs arbitrary: i) simp_all

lemma locateTextPattern_shape:
  "locateTextPattern nm txt rs i = makeNotFound nm
   \<or> (\<exists>idx c. (c = 90 / 100 \<or> c = 85 / 100)
         \<and> locateTextPattern nm txt rs i =
             \<lparr>sname = nm, found = True, confidence = c, startOffset = int idx,
              endOffset = int idx + int (length (extractTextSection txt idx)),
              lengthChars = int (length (extractTextSection txt idx)),
              content = extractTextSection txt idx\<rparr>)"
proof (induction rs arbitrary: i)
  case Nil
  then show ?case by simp
next
  case (Cons r rs)
  show ?case
  proof (cases "exec r txt")
    case None
    then show ?thesis using Cons.IH [of "Suc i"] by simp
  next
    case (Some idx)
    then show ?thesis by (auto simp: Let_def)
  qed
qed

lemma findSection_shape:
  "findSectionByDomSiblings divs p = makeNotFound (key p)
   \<or> (\<exists>h e c body. (c = 95 / 100 \<or> c = 90 / 100)
         \<and> findSectionByDomSiblings divs p =
             \<lparr>sname = key p, found = True, confidence = c, startOffset = h,
              endOffset = e, lengthChars = int (length body), content = body\<rparr>)"
proof (cases "findHeading (headingPatterns p) divs 0")
  case None
  then show ?thesis by (simp add: findSectionByDomSiblings_def)
next
  case (Some hc)
  obtain h c where hc: "hc = (h, c)" by (cases hc)
  obtain bs e where cb: "collectBlocks (drop (Suc h) divs) (Suc h) = (bs, e)"
    by (cases "collectBlocks (drop (Suc h) divs) (Suc h)")
  from findHeading_confidence Some hc have "c = 95 / 100 \<or> c = 90 / 100" by blast
  then show ?thesis
    using Some hc cb by (auto simp: findSectionByDomSiblings_def Let_def)
qed

lemma locateSections_unfold:
  "locateSections pd raw txt ct =
     (if ct = Html
      then [findSectionByDomSiblings (pd raw) (SECTION_PATTERNS ! 0),
            findSectionByDomSiblings (pd raw) (SECTION_PATTERNS ! 1),
            findSectionByDomSiblings (pd raw) (SECTION_PATTERNS ! 2)]
      else [locateTextPattern (key (SECTION_PATTERNS ! 0)) txt
              (map unanchored (headingPatterns (SECTION_PATTERNS ! 0))) 0,
            locateTextPattern (key (SECTION_PATTERNS ! 1)) txt
              (map unanchored (headingPatterns (SECTION_PATTERNS ! 1))) 0,
            locateTextPattern (key (SECTION_PATTERNS ! 2)) txt
              (map unanchored (headingPatterns (SECTION_PATTERNS ! 2))) 0])"
  by (simp add: locateSections_def locateInHtml_def locateInText_def SECTION_PATTERNS_def)

lemma keys: "map key SECTION_PATTERNS = [''risk_factors'', ''mdna'', ''financials'']"
  by (simp add: SECTION_PATTERNS_def)


lemma findSection_notFound:
  "(\<forall>d \<in> set divs. \<forall>r \<in> set (headingPatterns p). \<not> test r (blockText d)) \<Longrightarrow>
     findSectionByDomSiblings divs p = makeNotFound (key p)"
  by (simp add: findSectionByDomSiblings_def findHeading_None)

lemma findSection_sname: "sname (findSectionByDomSiblings divs p) = key p"
  using findSection_shape [of divs p] by (auto simp: makeNotFound_def)

lemma locateTextPattern_sname: "sname (locateTextPattern nm txt rs i) = nm"
  using locateTextPattern_shape [of nm "txt" rs i] by (auto simp: makeNotFound_def)

text \<open>What every result of the locator looks like.\<close>

lemma locateSections_element:
  assumes "s \<in> set (locateSections pd raw txt ct)"
  shows "(\<exists>nm. s = makeNotFound nm)
         \<or> (found s
             \<and> (confidence s = 85 / 100 \<or> confidence s = 90 / 100 \<or> confidence s = 95 / 100)
             \<and> lengthChars s = int (length (content s))
             \<and> (ct \<noteq> Html \<longrightarrow>
                   0 \<le> startOffset s
                   \<and> endOffset s = startOffset s + int (length (content s))
                   \<and> content s = extractTextSection txt (nat (startOffset s))))"
proof (cases "ct = Html")
  case True
  with assms obtain p where "s = findSectionByDomSiblings (pd raw) p"
    by (auto simp: locateSections_unfold)
  with findSection_shape [of "pd raw" p] True show ?thesis by auto
next
  case False
  with assms obtain nm rs where "s = locateTextPattern nm txt rs 0"
    by (auto simp: locateSections_unfold)
  with locateTextPattern_shape [of nm "txt" rs 0] False show ?thesis by auto
qed

text \<open>
  Claim C6: for every document and content kind, \<open>locateSections\<close> returns exactly
  three results, one per configured pattern and in their order (risk_factors, mdna,
  financials); a section none of whose heading patterns matches (no block of the
  markup, respectively no position of the text) is returned with \<open>found = false\<close>,
  confidence 0, both offsets -1, length 0 and empty content.
\<close>

theorem locateSections_three:
  "length (locateSections pd raw txt ct) = 3
   \<and> map sname (locateSections pd raw txt ct) = [''risk_factors'', ''mdna'', ''financials'']
   \<and> map key SECTION_PATTERNS = [''risk_factors'', ''mdna'', ''financials'']
   \<and> (\<forall>i < 3.
         (if ct = Html
          then \<forall>d \<in> set (pd raw). \<forall>r \<in> set (headingPatterns (SECTION_PATTERNS ! i)).
                 \<not> test r (blockText d)
          else \<forall>r \<in> set (headingPatterns (SECTION_PATTERNS ! i)). exec (unanchored r) txt = None)
         \<longrightarrow> locateSections pd raw txt ct ! i =
               \<lparr>sname = key (SECTION_PATTERNS ! i), found = False, confidence = 0,
                startOffset = -1, endOffset = -1, lengthChars = 0, content = []\<rparr>)"
proof -
  have k: "key (SECTION_PATTERNS ! 0) = ''risk_factors''" "key (SECTION_PATTERNS ! Suc 0) = ''mdna''"
          "key (SECTION_PATTERNS ! 2) = ''financials''"
    unfolding SECTION_PATTERNS_def by simp_all
  have a: "length (locateSections pd raw txt ct) = 3"
    by (simp add: locateSections_unfold)
  have b: "map sname (locateSections pd raw txt ct) = [''risk_factors'', ''mdna'', ''financials'']"
    by (simp add: locateSections_unfold findSection_sname locateTextPattern_sname k)
  have c: "map key SECTION_PATTERNS = [''risk_factors'', ''mdna'', ''financials'']"
    by (simp add: SECTION_PATTERNS_def)
  have d: "\<forall>i < 3.
         (if ct = Html
          then \<forall>d \<in> set (pd raw). \<forall>r \<in> set (headingPatterns (SECTION_PATTERNS ! i)).
                 \<not> test r (blockText d)
          else \<forall>r \<in> set (headingPatterns (SECTION_PATTERNS ! i)). exec (unanchored r) txt = None)
         \<longrightarrow> locateSections pd raw txt ct ! i =
               \<lparr>sname = key (SECTION_PATTERNS ! i), found = False, confidence = 0,
                startOffset = -1, endOffset = -1, lengthChars = 0, content = []\<rparr>"
  proof (intro allI impI)
    fix i :: nat
    assume i: "i < 3"
       and none: "if ct = Html
          then \<forall>d \<in> set (pd raw). \<forall>r \<in> set (headingPatterns (SECTION_PATTERNS ! i)).
                 \<not> test r (blockText d)
          else \<forall>r \<in> set (headingPatterns (SECTION_PATTERNS ! i)). exec (unanchored r) txt = None"
    from i have i3: "i = 0 \<or> i = 1 \<or> i = 2" by arith
    show "locateSections pd raw txt ct ! i =
               \<lparr>sname = key (SECTION_PATTERNS ! i), found = False, confidence = 0,
                startOffset = -1, endOffset = -1, lengthChars = 0, content = []\<rparr>"
    proof (cases "ct = Html")
      case True
      with none have "findSectionByDomSiblings (pd raw) (SECTION_PATTERNS ! i)
                        = makeNotFound (key (SECTION_PATTERNS ! i))"
        by (simp add: findSection_notFound)
      with True i3 show ?thesis
        by (auto simp: locateSections_unfold makeNotFound_def)
    next
      case False
      with none have "locateTextPattern (key (SECTION_PATTERNS ! i)) txt
              (map unanchored (headingPatterns (SECTION_PATTERNS ! i))) 0
                        = makeNotFound (key (SECTION_PATTERNS ! i))"
        by (simp add: locateTextPattern_None)
      with False i3 show ?thesis
        by (auto simp: locateSections_unfold makeNotFound_def)
    qed
  qed
  from a b c d show ?thesis by (intro conjI)
qed

text \<open>
  Claim C9: every result of \<open>locateSections\<close> with \<open>found = true\<close> has confidence
  0.85, 0.90 or 0.95, which is below neither threshold \<open>buildWorkflow\<close> can choose;
  so on the locator's results the validator, for any key, reports only "not found"
  or "too short": the confidence line is never produced.
\<close>

theorem locator_confidence_tiers:
  "(\<forall>s \<in> set (locateSections pd raw txt ct).
       found s \<longrightarrow>
         (confidence s = 85 / 100 \<or> confidence s = 90 / 100 \<or> confidence s = 95 / 100)
         \<and> \<not> confidence s < confidenceThreshold (buildWorkflow env opts))
   \<and> (\<forall>k. keyFailures fixed2 (locateSections pd raw txt ct)
          (confidenceThreshold (buildWorkflow env opts)) k
          = (case find (\<lambda>s. matchesSectionKey (sname s) k) (locateSections pd raw txt ct) of
               None \<Rightarrow> [notFoundMessage k]
             | Some s \<Rightarrow>
                 if \<not> found s then [notFoundMessage k]
                 else if lengthChars s < 500 then [tooShortMessage k (lengthChars s)]
                 else []))"
proof -
  have thr: "confidenceThreshold (buildWorkflow env opts) = 75 / 100
             \<or> confidenceThreshold (buildWorkflow env opts) = 5 / 10"
    by (simp add: buildWorkflow_def Let_def COMMAND_CONFIDENCE_THRESHOLD_def
          INTENT_CONFIDENCE_THRESHOLD_def)
  have a: "\<forall>s \<in> set (locateSections pd raw txt ct).
       found s \<longrightarrow>
         (confidence s = 85 / 100 \<or> confidence s = 90 / 100 \<or> confidence s = 95 / 100)
         \<and> \<not> confidence s < confidenceThreshold (buildWorkflow env opts)"
  proof (intro ballI impI)
    fix s assume "s \<in> set (locateSections pd raw txt ct)" and f: "found s"
    from locateSections_element [OF this(1)] f
    have "confidence s = 85 / 100 \<or> confidence s = 90 / 100 \<or> confidence s = 95 / 100"
      by (auto simp: makeNotFound_def)
    with thr show "(confidence s = 85 / 100 \<or> confidence s = 90 / 100 \<or> confidence s = 95 / 100)
         \<and> \<not> confidence s < confidenceThreshold (buildWorkflow env opts)"
      by auto
  qed
  have b: "keyFailures fixed2 (locateSections pd raw txt ct)
          (confidenceThreshold (buildWorkflow env opts)) k
          = (case find (\<lambda>s. matchesSectionKey (sname s) k) (locateSections pd raw txt ct) of
               None \<Rightarrow> [notFoundMessage k]
             | Some s \<Rightarrow>
                 if \<not> found s then [notFoundMessage k]
                 else if lengthChars s < 500 then [tooShortMessage k (lengthChars s)]
                 else [])" for k
  proof (cases "find (\<lambda>s. matchesSectionKey (sname s) k) (locateSections pd raw txt ct)")
    case None
    then show ?thesis by (simp add: keyFailures_def)
  next
    case (Some s)
    then have "s \<in> set (locateSections pd raw txt ct)"
      by (auto simp: find_Some_iff)
    with a have "found s \<longrightarrow> \<not> confidence s < confidenceThreshold (buildWorkflow env opts)"
      by blast
    with Some show ?thesis by (simp add: keyFailures_def MIN_SECTION_LENGTH_def)
  qed
  from a b show ?thesis by blast
qed

text \<open>
  Claim C10: every result of \<open>locateSections\<close>, on either path and found or not, has
  \<open>lengthChars = content.length\<close>; a result that is not found has empty content and
  length 0; on the flat-text path \<open>endOffset = startOffset + content.length\<close>.
\<close>

theorem locator_length_invariant:
  "\<forall>s \<in> set (locateSections pd raw txt ct).
      lengthChars s = int (length (content s))
      \<and> (\<not> found s \<longrightarrow> content s = [] \<and> lengthChars s = 0)
      \<and> (ct \<noteq> Html \<longrightarrow> endOffset s = startOffset s + int (length (content s)))"
proof
  fix s assume "s \<in> set (locateSections pd raw txt ct)"
  from locateSections_element [OF this]
  show "lengthChars s = int (length (content s))
      \<and> (\<not> found s \<longrightarrow> content s = [] \<and> lengthChars s = 0)
      \<and> (ct \<noteq> Html \<longrightarrow> endOffset s = startOffset s + int (length (content s)))"
    by (auto simp: makeNotFound_def)
qed


text \<open>The locator on a one-line text document.\<close>

lemma located_item8:
  "locateSections (\<lambda>h. []) [] ''item 8'' Text =
     [makeNotFound ''risk_factors'', makeNotFound ''mdna'',
      \<lparr>sname = ''financials'', found = True, confidence = 85 / 100, startOffset = 0,
       endOffset = 6, lengthChars = 6, content = ''item 8''\<rparr>]"
  by (simp add: locator_eval regex_eval)

theorem locateSections_three_witness:
  "locateSections (\<lambda>h. []) [] ''item 8'' Text ! 1 =
     \<lparr>sname = ''mdna'', found = False, confidence = 0, startOffset = -1, endOffset = -1,
      lengthChars = 0, content = []\<rparr>
   \<and> locateSections (\<lambda>h. [''Item 1A. Risk Factors'', ''Risk text'']) [] [] Html ! 2 =
     \<lparr>sname = ''financials'', found = False, confidence = 0, startOffset = -1, endOffset = -1,
      lengthChars = 0, content = []\<rparr>
   \<and> length (locateSections (\<lambda>h. []) [] ''item 8'' Text) = 3"
proof -
  have t: "\<forall>r \<in> set (headingPatterns (SECTION_PATTERNS ! 1)). exec (unanchored r) ''item 8'' = None"
    by (simp add: SECTION_PATTERNS_def unanchored_def itemPrefix_def regex_eval)
  have h: "\<forall>d \<in> set [''Item 1A. Risk Factors'', ''Risk text''].
             \<forall>r \<in> set (headingPatterns (SECTION_PATTERNS ! 2)). \<not> test r (blockText d)"
    by (simp add: SECTION_PATTERNS_def itemPrefix_def blockText_def collapseWs_def regex_eval)
  have k: "key (SECTION_PATTERNS ! 1) = ''mdna''" "key (SECTION_PATTERNS ! 2) = ''financials''"
    unfolding SECTION_PATTERNS_def by simp_all
  from locateSections_three [of "\<lambda>h. []" "[]" "''item 8''" Text] t k
  have a: "locateSections (\<lambda>h. []) [] ''item 8'' Text ! 1 =
     \<lparr>sname = ''mdna'', found = False, confidence = 0, startOffset = -1, endOffset = -1,
      lengthChars = 0, content = []\<rparr>
     \<and> length (locateSections (\<lambda>h. []) [] ''item 8'' Text) = 3"
    by auto
  from locateSections_three [of "\<lambda>h. [''Item 1A. Risk Factors'', ''Risk text'']" "[]" "[]" Html] h k
  have b: "locateSections (\<lambda>h. [''Item 1A. Risk Factors'', ''Risk text'']) [] [] Html ! 2 =
     \<lparr>sname = ''financials'', found = False, confidence = 0, startOffset = -1, endOffset = -1,
      lengthChars = 0, content = []\<rparr>"
    by auto
  from a b show ?thesis by simp
qed

theorem locator_confidence_tiers_witness:
  "found (locateSections (\<lambda>h. []) [] ''item 8'' Text ! 2)
   \<and> confidence (locateSections (\<lambda>h. []) [] ''item 8'' Text ! 2) = 85 / 100
   \<and> \<not> confidence (locateSections (\<lambda>h. []) [] ''item 8'' Text ! 2)
         < confidenceThreshold (buildWorkflow offlineEnv (sampleOptions Command))
   \<and> keyFailures sampleFixed2 (locateSections (\<lambda>h. []) [] ''item 8'' Text)
        (confidenceThreshold (buildWorkflow offlineEnv (sampleOptions Command))) ''financials''
       = [tooShortMessage ''financials'' 6]"
proof -
  define s where "s = locateSections (\<lambda>h. []) [] ''item 8'' Text ! 2"
  have m: "s \<in> set (locateSections (\<lambda>h. []) [] ''item 8'' Text)"
    by (simp add: s_def located_item8)
  have f: "found s" by (simp add: s_def located_item8)
  have c: "confidence s = 85 / 100" by (simp add: s_def located_item8)
  have fd: "find (\<lambda>s. matchesSectionKey (sname s) ''financials'')
              (locateSections (\<lambda>h. []) [] ''item 8'' Text) = Some s"
    by (simp add: s_def located_item8 makeNotFound_def matchesSectionKey_def SECTION_PATTERNS_def
          toLowerCase_def lowerChar_def)
  have len: "lengthChars s = 6" by (simp add: s_def located_item8)
  from locator_confidence_tiers
         [of "\<lambda>h. []" "[]" "''item 8''" Text offlineEnv "sampleOptions Command" sampleFixed2]
       m f
  have a: "\<not> confidence s < confidenceThreshold (buildWorkflow offlineEnv (sampleOptions Command))"
    and b: "keyFailures sampleFixed2 (locateSections (\<lambda>h. []) [] ''item 8'' Text)
        (confidenceThreshold (buildWorkflow offlineEnv (sampleOptions Command))) ''financials''
       = [tooShortMessage ''financials'' 6]"
    by (auto simp: fd len)
  from f c a b show ?thesis by (simp add: s_def)
qed

theorem locator_length_invariant_witness:
  "lengthChars (locateSections (\<lambda>h. []) [] ''item 8'' Text ! 2)
     = int (length (content (locateSections (\<lambda>h. []) [] ''item 8'' Text ! 2)))
   \<and> endOffset (locateSections (\<lambda>h. []) [] ''item 8'' Text ! 2)
     = startOffset (locateSections (\<lambda>h. []) [] ''item 8'' Text ! 2)
       + int (length (content (locateSections (\<lambda>h. []) [] ''item 8'' Text ! 2)))
   \<and> lengthChars (locateSections (\<lambda>h. []) [] ''item 8'' Text ! 2) = 6
   \<and> content (locateSections (\<lambda>h. []) [] ''item 8'' Text ! 0) = []
   \<and> lengthChars (locateSections (\<lambda>h. []) [] ''item 8'' Text ! 0) = 0"
proof -
  have m2: "locateSections (\<lambda>h. []) [] ''item 8'' Text ! 2
              \<in> set (locateSections (\<lambda>h. []) [] ''item 8'' Text)"
    and m0: "locateSections (\<lambda>h. []) [] ''item 8'' Text ! 0
              \<in> set (locateSections (\<lambda>h. []) [] ''item 8'' Text)"
    by (simp_all add: located_item8)
  have nf: "\<not> found (locateSections (\<lambda>h. []) [] ''item 8'' Text ! 0)"
    and l6: "length (content (locateSections (\<lambda>h. []) [] ''item 8'' Text ! 2)) = 6"
    by (simp_all add: located_item8 makeNotFound_def)
  from locator_length_invariant [of "\<lambda>h. []" "[]" "''item 8''" Text] m2 m0 nf l6
  show ?thesis by auto
qed






section \<open>Properties of the summarizer\<close>

lemma analyseKeys_map: "analyseKeys S K acc = acc @ map (analyseKey S) K"
  by (induction K arbitrary: acc) simp_all

lemma truncate_length: "length (truncate_str t 200) \<le> 200"
  by (simp add: truncate_str_def)

lemma analyseKey_bounds:
  "length (summary (analyseKey S k)) \<le> 5
   \<and> length (evidence (analyseKey S k)) \<le> 3
   \<and> (\<forall>e \<in> set (evidence (analyseKey S k)). length e \<le> 200)"
  by (auto simp: analyseKey_def Let_def MAX_SUMMARY_POINTS_def MAX_EVIDENCE_SNIPPETS_def
        truncate_length split: option.splits)

text \<open>
  Claim C7: for every list of located sections and every list of required keys,
  \<open>generateAnalysis\<close> returns exactly one analysis per requested key, the \<open>i\<close>-th for
  the \<open>i\<close>-th key; every analysis has at most 5 summary sentences and at most 3
  evidence snippets, each snippet of at most 200 characters; a key whose section is
  absent or not found yields the placeholder with \<open>found = false\<close> and empty summary
  and evidence, and a key whose section is found yields that section's analysis.
\<close>

theorem generateAnalysis_shape:
  "length (r_sections (generateAnalysis S K)) = length K
   \<and> (\<forall>a \<in> set (r_sections (generateAnalysis S K)).
         length (summary a) \<le> 5 \<and> length (evidence a) \<le> 3
         \<and> (\<forall>e \<in> set (evidence a). length e \<le> 200))
   \<and> (\<forall>i < length K.
         case find (\<lambda>s. matchesSectionKey (sname s) (K ! i)) S of
           None \<Rightarrow>
             \<not> afound (r_sections (generateAnalysis S K) ! i)
             \<and> aconfidence (r_sections (generateAnalysis S K) ! i) = 0
             \<and> summary (r_sections (generateAnalysis S K) ! i) = []
             \<and> evidence (r_sections (generateAnalysis S K) ! i) = []
         | Some s \<Rightarrow>
             if found s
             then aname (r_sections (generateAnalysis S K) ! i) = sname s
                  \<and> afound (r_sections (generateAnalysis S K) ! i)
                  \<and> aconfidence (r_sections (generateAnalysis S K) ! i) = confidence s
             else \<not> afound (r_sections (generateAnalysis S K) ! i)
                  \<and> aconfidence (r_sections (generateAnalysis S K) ! i) = 0
                  \<and> summary (r_sections (generateAnalysis S K) ! i) = []
                  \<and> evidence (r_sections (generateAnalysis S K) ! i) = [])"
proof -
  have r: "r_sections (generateAnalysis S K) = map (analyseKey S) K"
    by (simp add: generateAnalysis_def Let_def analyseKeys_map)
  have a: "length (r_sections (generateAnalysis S K)) = length K" by (simp add: r)
  have b: "\<forall>a \<in> set (r_sections (generateAnalysis S K)).
         length (summary a) \<le> 5 \<and> length (evidence a) \<le> 3
         \<and> (\<forall>e \<in> set (evidence a). length e \<le> 200)"
    using analyseKey_bounds by (auto simp: r)
  have c: "\<forall>i < length K.
         case find (\<lambda>s. matchesSectionKey (sname s) (K ! i)) S of
           None \<Rightarrow>
             \<not> afound (r_sections (generateAnalysis S K) ! i)
             \<and> aconfidence (r_sections (generateAnalysis S K) ! i) = 0
             \<and> summary (r_sections (generateAnalysis S K) ! i) = []
             \<and> evidence (r_sections (generateAnalysis S K) ! i) = []
         | Some s \<Rightarrow>
             if found s
             then aname (r_sections (generateAnalysis S K) ! i) = sname s
                  \<and> afound (r_sections (generateAnalysis S K) ! i)
                  \<and> aconfidence (r_sections (generateAnalysis S K) ! i) = confidence s
             else \<not> afound (r_sections (generateAnalysis S K) ! i)
                  \<and> aconfidence (r_sections (generateAnalysis S K) ! i) = 0
                  \<and> summary (r_sections (generateAnalysis S K) ! i) = []
                  \<and> evidence (r_sections (generateAnalysis S K) ! i) = []"
    by (auto simp: r analyseKey_def Let_def split: option.splits)
  from a b c show ?thesis by (intro conjI)
qed

theorem generateAnalysis_shape_witness:
  "length (r_sections (generateAnalysis [sampleRisk] [''risk-factors'', ''mdna''])) = 2
   \<and> aname (r_sections (generateAnalysis [sampleRisk] [''risk-factors'', ''mdna'']) ! 0)
       = ''risk_factors''
   \<and> afound (r_sections (generateAnalysis [sampleRisk] [''risk-factors'', ''mdna'']) ! 0)
   \<and> length (summary (r_sections (generateAnalysis [sampleRisk] [''risk-factors'', ''mdna'']) ! 0))
       \<le> 5
   \<and> length (evidence (r_sections (generateAnalysis [sampleRisk] [''risk-factors'', ''mdna'']) ! 0))
       \<le> 3
   \<and> \<not> afound (r_sections (generateAnalysis [sampleRisk] [''risk-factors'', ''mdna'']) ! 1)
   \<and> summary (r_sections (generateAnalysis [sampleRisk] [''risk-factors'', ''mdna'']) ! 1) = []
   \<and> evidence (r_sections (generateAnalysis [sampleRisk] [''risk-factors'', ''mdna'']) ! 1) = []"
proof -
  define r where "r = r_sections (generateAnalysis [sampleRisk] [''risk-factors'', ''mdna''])"
  note t = generateAnalysis_shape [of "[sampleRisk]" "[''risk-factors'', ''mdna'']",
             folded r_def]
  have f0: "matchesSectionKey ''risk_factors'' ''risk-factors''"
    and f1: "\<not> matchesSectionKey ''risk_factors'' ''mdna''"
    by (simp_all add: matchesSectionKey_def SECTION_PATTERNS_def toLowerCase_def lowerChar_def)
  have fs: "found sampleRisk" "sname sampleRisk = ''risk_factors''"
    by (simp_all add: sampleRisk_def)
  from t have len: "length r = 2" by simp
  then have m: "r ! 0 \<in> set r" by simp
  from t m have b: "length (summary (r ! 0)) \<le> 5 \<and> length (evidence (r ! 0)) \<le> 3"
    by blast
  from t have c: "\<forall>i < 2.
         case find (\<lambda>s. matchesSectionKey (sname s) ([''risk-factors'', ''mdna''] ! i)) [sampleRisk] of
           None \<Rightarrow> \<not> afound (r ! i) \<and> aconfidence (r ! i) = 0
                    \<and> summary (r ! i) = [] \<and> evidence (r ! i) = []
         | Some s \<Rightarrow>
             if found s
             then aname (r ! i) = sname s \<and> afound (r ! i) \<and> aconfidence (r ! i) = confidence s
             else \<not> afound (r ! i) \<and> aconfidence (r ! i) = 0
                  \<and> summary (r ! i) = [] \<and> evidence (r ! i) = []"
    by simp
  from c [rule_format, of 0] have c0: "aname (r ! 0) = ''risk_factors'' \<and> afound (r ! 0)"
    by (simp add: f0 fs)
  from c [rule_format, of 1] have c1:
    "\<not> afound (r ! 1) \<and> summary (r ! 1) = [] \<and> evidence (r ! 1) = []"
    by (simp add: f1 fs)
  from len b c0 c1 show ?thesis by (simp add: r_def)
qed

end
